theory Spec2Isabelle
  imports Complex_Main
begin

section \<open>Floating-point values with the IEEE special cases\<close>

text \<open>
  The program computes with numpy \<open>float64\<close> values. The branches of the source that
  the fitting engine relies on test for \<open>NaN\<close> and \<open>inf\<close>, divide by norms that may
  be zero and compare against \<open>-numpy.inf\<close>, so the special values are part of the
  model. A finite value carries a real number: rounding and overflow of finite
  results are not modelled, and zero is unsigned (every divisor of the modelled code
  that can vanish is a norm, a product of square roots or a data column, so the
  sign of a zero result follows the numerator as for \<open>+0.0\<close>).

  The theorems below are to be read with this in mind. They concern which branch is
  taken and which special value comes out, results computed by the same operations in
  the same order, and order statements that use only the monotonicity of the
  operations, which rounding to nearest preserves. An exact identity between finite
  results computed along different paths (such as a quotient multiplied back by its
  divisor) holds of the real numbers and not of \<open>float64\<close>, and is not stated.
\<close>

datatype fl = Fin real | PInf | NInf | NaN

fun isnan :: "fl \<Rightarrow> bool" where
  "isnan NaN = True"
| "isnan _ = False"

fun isinf :: "fl \<Rightarrow> bool" where
  "isinf PInf = True"
| "isinf NInf = True"
| "isinf _ = False"

fun isfinite :: "fl \<Rightarrow> bool" where
  "isfinite (Fin _) = True"
| "isfinite _ = False"

fun fneg :: "fl \<Rightarrow> fl" where
  "fneg (Fin a) = Fin (- a)"
| "fneg PInf = NInf"
| "fneg NInf = PInf"
| "fneg NaN = NaN"

fun fadd :: "fl \<Rightarrow> fl \<Rightarrow> fl" where
  "fadd NaN _ = NaN"
| "fadd _ NaN = NaN"
| "fadd PInf NInf = NaN"
| "fadd NInf PInf = NaN"
| "fadd PInf _ = PInf"
| "fadd _ PInf = PInf"
| "fadd NInf _ = NInf"
| "fadd _ NInf = NInf"
| "fadd (Fin a) (Fin b) = Fin (a + b)"

definition fsub :: "fl \<Rightarrow> fl \<Rightarrow> fl" where
  "fsub a b = fadd a (fneg b)"

text \<open>The sign of a value, for products and quotients with an infinite operand.\<close>

fun fpositive :: "fl \<Rightarrow> bool" where
  "fpositive (Fin a) = (0 < a)"
| "fpositive PInf = True"
| "fpositive _ = False"

fun fnegative :: "fl \<Rightarrow> bool" where
  "fnegative (Fin a) = (a < 0)"
| "fnegative NInf = True"
| "fnegative _ = False"

definition signed_inf :: "fl \<Rightarrow> fl \<Rightarrow> fl" where
  "signed_inf a b =
     (if (fpositive a \<and> fpositive b) \<or> (fnegative a \<and> fnegative b) then PInf
      else if (fpositive a \<and> fnegative b) \<or> (fnegative a \<and> fpositive b) then NInf
      else NaN)"

fun fmul :: "fl \<Rightarrow> fl \<Rightarrow> fl" where
  "fmul NaN _ = NaN"
| "fmul _ NaN = NaN"
| "fmul (Fin a) (Fin b) = Fin (a * b)"
| "fmul a b = signed_inf a b"

fun fdiv :: "fl \<Rightarrow> fl \<Rightarrow> fl" where
  "fdiv NaN _ = NaN"
| "fdiv _ NaN = NaN"
| "fdiv (Fin a) (Fin b) = (if b = 0 then signed_inf (Fin a) PInf else Fin (a / b))"
| "fdiv (Fin a) _ = Fin 0"
| "fdiv a (Fin b) = (if b = 0 then a else signed_inf a (Fin b))"
| "fdiv _ _ = NaN"

definition fsq :: "fl \<Rightarrow> fl" where
  \<comment> \<open>\<open>x**2\<close>\<close>
  "fsq a = fmul a a"

fun fsqrt :: "fl \<Rightarrow> fl" where
  "fsqrt (Fin a) = (if a < 0 then NaN else Fin (sqrt a))"
| "fsqrt PInf = PInf"
| "fsqrt _ = NaN"

fun fabs :: "fl \<Rightarrow> fl" where
  "fabs (Fin a) = Fin \<bar>a\<bar>"
| "fabs PInf = PInf"
| "fabs NInf = PInf"
| "fabs NaN = NaN"

text \<open>Comparisons: every comparison with \<open>NaN\<close> is false.\<close>

fun fless :: "fl \<Rightarrow> fl \<Rightarrow> bool" where
  "fless NaN _ = False"
| "fless _ NaN = False"
| "fless (Fin a) (Fin b) = (a < b)"
| "fless NInf NInf = False"
| "fless NInf _ = True"
| "fless PInf _ = False"
| "fless (Fin a) PInf = True"
| "fless (Fin a) NInf = False"

fun fle :: "fl \<Rightarrow> fl \<Rightarrow> bool" where
  "fle NaN _ = False"
| "fle _ NaN = False"
| "fle a b = (a = b \<or> fless a b)"

type_synonym vec = "fl list"

definition np_sum :: "fl list \<Rightarrow> fl" where
  \<comment> \<open>\<open>numpy.sum\<close> and the builtin \<open>sum\<close>: accumulation from zero\<close>
  "np_sum xs = foldl fadd (Fin 0) xs"

text \<open>Arrays are lists. The arrays an elementwise operation combines have one shape in
  the program (the points of one optimization problem, the columns of one matrix), so
  the elementwise operations pair the elements by position.\<close>

definition vsub :: "vec \<Rightarrow> vec \<Rightarrow> vec" where
  \<comment> \<open>elementwise difference of two arrays of one shape\<close>
  "vsub x y = map2 fsub x y"

definition euclid :: "vec \<Rightarrow> vec \<Rightarrow> fl" where
  \<comment> \<open>\<open>numpy.sqrt(numpy.sum((x - y)**2))\<close>\<close>
  "euclid x y = fsqrt (np_sum (map fsq (vsub x y)))"

datatype py_error =
    Exception string
  | ValueError string
  | IndexError
  | KeyError
  | AxisError
  | Blocked  \<comment> \<open>not an exception: the call never returns, the parent process waits on a queue\<close>

section \<open>The global optimizer: tabu list and tunnelling transform\<close>

text \<open>\<open>numpy.argmax\<close> on a one-dimensional float array: the first \<open>NaN\<close> wins, otherwise
  the first occurrence of the greatest value. The array is not empty.\<close>

fun argmax_scan :: "fl list \<Rightarrow> nat \<Rightarrow> nat \<Rightarrow> fl \<Rightarrow> nat" where
  "argmax_scan [] i best_i best = best_i"
| "argmax_scan (d # ds) i best_i best =
     (if isnan best then best_i
      else if \<not> fle d best then argmax_scan ds (Suc i) i d
      else argmax_scan ds (Suc i) best_i best)"

definition np_argmax :: "fl list \<Rightarrow> nat" where
  "np_argmax ds = (case ds of [] \<Rightarrow> 0 | d # rest \<Rightarrow> argmax_scan rest 1 0 d)"

definition list_pop :: "'a list \<Rightarrow> nat \<Rightarrow> py_error + 'a list" where
  \<comment> \<open>\<open>list.pop(index)\<close>, keeping the list that remains\<close>
  "list_pop xs i = (if i < length xs then Inr (take i xs @ drop (Suc i) xs) else Inl IndexError)"

definition drop_tabu_points :: "vec \<Rightarrow> vec list \<Rightarrow> int \<Rightarrow> string \<Rightarrow> py_error + vec list" where
  "drop_tabu_points xf tabulist tabulistsize tabustrategy =
     (if int (length tabulist) < tabulistsize then Inr tabulist
      else if tabustrategy = ''oldest'' then list_pop tabulist 0
      else if tabulist = [] then
        \<comment> \<open>\<open>[] - xf\<close> broadcasts shape \<open>(0,)\<close> against \<open>(n,)\<close>: an error for \<open>n \<ge> 2\<close>; otherwise
            the difference is one-dimensional and \<open>axis=1\<close> is out of range\<close>
        (if 2 \<le> length xf then Inl (ValueError ''operands could not be broadcast together'')
         else Inl AxisError)
      else
        (let distance = map (\<lambda>tabu. euclid tabu xf) tabulist;
             index = np_argmax distance
         in list_pop tabulist index))"

definition tabu_denominator :: "vec \<Rightarrow> vec list \<Rightarrow> fl" where
  \<comment> \<open>the loop \<open>for tabu in tabulist: denominator = denominator*numpy.sqrt(...)\<close> from 1.0\<close>
  "tabu_denominator x tabulist = foldl (\<lambda>denominator tabu. fmul denominator (euclid x tabu)) (Fin 1) tabulist"

definition tunnel :: "(vec \<Rightarrow> fl) \<Rightarrow> fl \<Rightarrow> vec list \<Rightarrow> vec \<Rightarrow> fl" where
  "tunnel objfun aspiration tabulist x0 =
     (let numerator = fsq (fsub (objfun x0) aspiration);
          denominator = tabu_denominator x0 tabulist
      in fdiv numerator denominator)"

definition inverse_tunnel :: "vec \<Rightarrow> fl \<Rightarrow> fl \<Rightarrow> vec list \<Rightarrow> fl" where
  "inverse_tunnel xtf ytf aspiration tabulist =
     (let denominator = tabu_denominator xtf tabulist
      in fadd aspiration (fsqrt (fmul ytf denominator)))"


section \<open>The global optimizer: the AMPGO driver\<close>

definition SCIPY_LOCAL_SOLVERS :: "string list" where
  "SCIPY_LOCAL_SOLVERS = [''Nelder-Mead'', ''Powell'', ''L-BFGS-B'', ''TNC'', ''SLSQP'']"

definition OPENOPT_LOCAL_SOLVERS :: "string list" where
  "OPENOPT_LOCAL_SOLVERS = [''bobyqa'', ''ptn'', ''slmvm2'', ''ralg'', ''mma'', ''auglag'', ''sqlcp'']"

text \<open>The keyword arguments of \<open>AMPGO\<close> (\<open>args\<close>, \<open>local_opts\<close> and \<open>disp\<close> only reach the
  objective, the local solver and the printing).\<close>

record ampgo_args =
  local :: string
  bounds :: "(fl option \<times> fl option) option list option"
  maxfunevals :: "int option"
  totaliter :: int
  maxiter :: int
  glbtol :: fl
  eps1 :: fl
  eps2 :: fl
  tabulistsize :: int
  tabustrategy :: string
  fmin :: fl

text \<open>
  What the module takes from outside: whether scipy and OpenOpt could be imported, the
  local solver (\<open>scipy.optimize.minimize\<close> or OpenOpt's \<open>NLP\<close>, called with an objective,
  a start point, the method, the bounds, the tolerance and the iteration cap, and
  answering with the point, the value and the number of evaluations) and the draws of
  \<open>numpy.random.uniform(-1.0, 1.0, size=(n, ))\<close>, the \<open>k\<close>-th tunnelling phase taking
  the \<open>k\<close>-th draw.
\<close>

record ampgo_env =
  SCIPY :: bool
  OPENOPT :: bool
  minimize :: "(vec \<Rightarrow> fl) \<Rightarrow> vec \<Rightarrow> string \<Rightarrow> (fl option \<times> fl option) option list \<Rightarrow> fl \<Rightarrow> int
                 \<Rightarrow> vec \<times> fl \<times> int"
  uniform :: "nat \<Rightarrow> vec"

text \<open>The returned tuple: \<open>best_x, best_f, evaluations, msg, (all_tunnel, success_tunnel)\<close>.\<close>

type_synonym ampgo_result = "vec \<times> fl \<times> int \<times> string \<times> (nat \<times> nat)"


text \<open>The values fixed before the loop starts, and the variables the loop updates.\<close>

record ampgo_ctx =
  env :: ampgo_env
  objfun :: "vec \<Rightarrow> fl"
  kw :: ampgo_args
  bnds :: "(fl option \<times> fl option) option list"
  low :: vec
  up :: vec
  local_tol :: fl

record ampgo_state =
  cur_x0 :: vec
  xf :: vec
  best_x :: vec
  best_f :: fl
  tabulist :: "vec list"
  maxfunevals_left :: int
  evaluations :: int
  all_tunnel :: nat
  success_tunnel :: nat

datatype 'a flow = Raise py_error | Return ampgo_result | Next 'a

definition returning :: "ampgo_state \<Rightarrow> string \<Rightarrow> ampgo_result" where
  "returning s msg = (best_x s, best_f s, evaluations s, msg, (all_tunnel s, success_tunnel s))"

fun bound_arrays :: "(fl option \<times> fl option) option list \<Rightarrow> vec \<times> vec" where
  \<comment> \<open>\<open>low\<close> and \<open>up\<close> start as zeros; an entry of \<open>bounds\<close> that is \<open>None\<close> leaves both at zero\<close>
  "bound_arrays [] = ([], [])"
| "bound_arrays (b # bs) =
     (let (lows, ups) = bound_arrays bs in
      case b of
        None \<Rightarrow> (Fin 0 # lows, Fin 0 # ups)
      | Some (l, u) \<Rightarrow>
          ((case l of None \<Rightarrow> NInf | Some v \<Rightarrow> v) # lows,
           (case u of None \<Rightarrow> PInf | Some v \<Rightarrow> v) # ups))"

definition np_norm :: "vec \<Rightarrow> fl" where
  \<comment> \<open>\<open>numpy.linalg.norm\<close> of a one-dimensional array\<close>
  "np_norm v = fsqrt (np_sum (map fsq v))"

definition step_scale :: "fl \<Rightarrow> vec \<Rightarrow> vec \<Rightarrow> fl" where
  \<comment> \<open>\<open>beta\<close>, after the test \<open>numpy.abs(beta) < 1e-8\<close>\<close>
  "step_scale e2 x r =
     (let beta = fdiv (fmul e2 (np_norm x)) (np_norm r)
      in if fless (fabs beta) (Fin (1 / 10 ^ 8)) then e2 else beta)"

definition clip :: "vec \<Rightarrow> vec \<Rightarrow> vec \<Rightarrow> vec" where
  \<comment> \<open>\<open>numpy.where(x0 < low, low, x0)\<close>, then \<open>numpy.where(x0 > up, up, x0)\<close>\<close>
  "clip lo hi x =
     (let x1 = map2 (\<lambda>xi li. if fless xi li then li else xi) x lo
      in map2 (\<lambda>xi ui. if fless ui xi then ui else xi) x1 hi)"

definition tunnel_start :: "fl \<Rightarrow> vec \<Rightarrow> vec \<Rightarrow> vec \<Rightarrow> vec \<Rightarrow> vec" where
  \<comment> \<open>the start point of a tunnelling phase: \<open>xf + beta*r\<close>, clipped\<close>
  "tunnel_start e2 lo hi x r =
     (let beta = step_scale e2 x r
      in clip lo hi (map2 fadd x (map (fmul beta) r)))"

definition success_msg :: string where
  "success_msg = ''Optimization terminated successfully''"

definition maxfun_msg :: string where
  "maxfun_msg = ''Maximum number of function evaluations exceeded''"

definition maxiter_msg :: string where
  "maxiter_msg = ''Maximum number of global iterations exceeded''"

definition append_tabu :: "ampgo_ctx \<Rightarrow> ampgo_state \<Rightarrow> ampgo_state flow" where
  \<comment> \<open>\<open>tabulist = drop_tabu_points(xf, tabulist, tabulistsize, tabustrategy)\<close>;
      \<open>tabulist.append(xf)\<close>\<close>
  "append_tabu c s =
     (case drop_tabu_points (xf s) (tabulist s) (tabulistsize (kw c)) (tabustrategy (kw c)) of
        Inl e \<Rightarrow> Raise e
      | Inr kept \<Rightarrow> Next (s\<lparr>tabulist := kept @ [xf s]\<rparr>))"

definition minimization_phase :: "ampgo_ctx \<Rightarrow> ampgo_state \<Rightarrow> ampgo_state flow" where
  "minimization_phase c s =
     (let (x, y, num_fun) =
            minimize (env c) (objfun c) (cur_x0 s) (local (kw c)) (bnds c) (local_tol c)
              (max 1 (maxfunevals_left s));
          s1 = s\<lparr>xf := x,
                 maxfunevals_left := maxfunevals_left s - num_fun,
                 evaluations := evaluations s + num_fun\<rparr>;
          s2 = (if fless y (best_f s1) then s1\<lparr>best_f := y, best_x := x\<rparr> else s1)
      in if fless (best_f s2) (fadd (fmin (kw c)) (glbtol (kw c))) then Return (returning s2 success_msg)
         else if maxfunevals_left s2 \<le> 0 then Return (returning s2 maxfun_msg)
         else append_tabu c s2)"

text \<open>One pass through the body of the tunnelling loop; with the next state comes the
  new value of \<open>improve\<close>.\<close>

definition tunnelling_phase :: "ampgo_ctx \<Rightarrow> int \<Rightarrow> ampgo_state \<Rightarrow> (ampgo_state \<times> int) flow" where
  "tunnelling_phase c improve s =
     (let s0 = s\<lparr>all_tunnel := all_tunnel s + 1\<rparr>;
          r = uniform (env c) (all_tunnel s0);
          x0 = tunnel_start (eps2 (kw c)) (low c) (up c) (xf s0) r;
          aspiration = fsub (best_f s0) (fmul (eps1 (kw c)) (fadd (Fin 1) (fabs (best_f s0))));
          (x, ytf, num_fun) =
            minimize (env c) (tunnel (objfun c) aspiration (tabulist s0)) x0 (local (kw c)) (bnds c)
              (local_tol c) (max 1 (maxfunevals_left s0));
          s1 = s0\<lparr>cur_x0 := x0, xf := x,
                  maxfunevals_left := maxfunevals_left s0 - num_fun,
                  evaluations := evaluations s0 + num_fun\<rparr>;
          yf = inverse_tunnel x ytf aspiration (tabulist s1);
          accepted = fle yf (fadd (best_f s1) (glbtol (kw c)));
          s2 = (if accepted
                then s1\<lparr>best_f := yf, best_x := x, success_tunnel := success_tunnel s1 + 1\<rparr>
                else s1);
          improve' = (if accepted then 1 else improve)
      in if fless (best_f s2) (fadd (fmin (kw c)) (glbtol (kw c))) then Return (returning s2 success_msg)
         else if maxfunevals_left s2 \<le> 0 then Return (returning s2 maxfun_msg)
         else (case append_tabu c s2 of
                 Raise e \<Rightarrow> Raise e
               | Return res \<Rightarrow> Return res
               | Next s3 \<Rightarrow> Next (s3, improve')))"

function tunnelling :: "ampgo_ctx \<Rightarrow> int \<Rightarrow> int \<Rightarrow> ampgo_state \<Rightarrow> ampgo_state flow" where
  "tunnelling c i improve s =
     (if i < maxiter (kw c) \<and> improve = 0 then
        (case tunnelling_phase c improve s of
           Raise e \<Rightarrow> Raise e
         | Return res \<Rightarrow> Return res
         | Next (s', improve') \<Rightarrow> tunnelling c (i + 1) improve' s')
      else Next s)"
  by pat_completeness auto
termination
  by (relation "measure (\<lambda>(c, i, improve, s). nat (maxiter (kw c) - i))") auto

function ampgo_loop :: "ampgo_ctx \<Rightarrow> int \<Rightarrow> ampgo_state \<Rightarrow> py_error + ampgo_result" where
  "ampgo_loop c global_iter s =
     (case minimization_phase c s of
        Raise e \<Rightarrow> Inl e
      | Return res \<Rightarrow> Inr res
      | Next s1 \<Rightarrow>
          (case tunnelling c 0 0 s1 of
             Raise e \<Rightarrow> Inl e
           | Return res \<Rightarrow> Inr res
           | Next s2 \<Rightarrow>
               (let s3 = s2\<lparr>cur_x0 := xf s2\<rparr> in
                if totaliter (kw c) \<le> global_iter + 1 then Inr (returning s3 maxiter_msg)
                else if fless (best_f s3) (fadd (fmin (kw c)) (glbtol (kw c)))
                  then Inr (returning s3 success_msg)
                else ampgo_loop c (global_iter + 1) s3)))"
  by pat_completeness auto
termination
  by (relation "measure (\<lambda>(c, global_iter, s). nat (totaliter (kw c) - global_iter))") auto

definition AMPGO :: "ampgo_env \<Rightarrow> (vec \<Rightarrow> fl) \<Rightarrow> vec \<Rightarrow> ampgo_args \<Rightarrow> py_error + ampgo_result" where
  "AMPGO e f x0 a =
     (if local a \<notin> set (SCIPY_LOCAL_SOLVERS @ OPENOPT_LOCAL_SOLVERS)
        then Inl (Exception ''Invalid local solver selected'')
      else if local a \<in> set SCIPY_LOCAL_SOLVERS \<and> \<not> SCIPY e
        then Inl (Exception ''The selected solver is not available as there is no scipy installation'')
      else if local a \<in> set OPENOPT_LOCAL_SOLVERS \<and> \<not> OPENOPT e
        then Inl (Exception ''The selected solver is not available as there is no OpenOpt installation'')
      else
        (let n = length x0;
             bs = (case bounds a of None \<Rightarrow> replicate n (Some (None, None)) | Some b \<Rightarrow> b)
         in if length bs \<noteq> n then Inl (ValueError ''length of x0 != length of bounds'')
            else if tabulistsize a < 1 then Inl (Exception ''Invalid tabulistsize specified'')
            else if tabustrategy a \<noteq> ''oldest'' \<and> tabustrategy a \<noteq> ''farthest''
              then Inl (Exception ''Invalid tabustrategy specified'')
            else
              (let (lo, hi) = bound_arrays bs;
                   budget = (case maxfunevals a of None \<Rightarrow> max 100 (10 * int n) | Some m \<Rightarrow> m);
                   tol = (if fless (glbtol a) (Fin (1 / 10 ^ 8)) then glbtol a else Fin (1 / 10 ^ 8));
                   c = \<lparr>env = e, objfun = f, kw = a, bnds = bs, low = lo, up = hi, local_tol = tol\<rparr>;
                   s = \<lparr>cur_x0 = x0, xf = x0, best_x = x0, best_f = PInf, tabulist = [],
                        maxfunevals_left = budget, evaluations = 0, all_tunnel = 0,
                        success_tunnel = 0\<rparr>
               in ampgo_loop c 0 s)))"

text \<open>
  The states an AMPGO run passes through, from the state \<open>s0\<close> the loop starts in: the
  state after a minimization phase that went on to the tunnelling loop, the state after
  each pass of the tunnelling loop that went on, and the state after \<open>x0 = xf.copy()\<close>.
\<close>

inductive visited :: "ampgo_ctx \<Rightarrow> ampgo_state \<Rightarrow> ampgo_state \<Rightarrow> bool" for c s0 where
  start: "visited c s0 s0"
| minimized: "visited c s0 s \<Longrightarrow> minimization_phase c s = Next s' \<Longrightarrow> visited c s0 s'"
| tunnelled: "visited c s0 s \<Longrightarrow> tunnelling_phase c improve s = Next (s', improve') \<Longrightarrow> visited c s0 s'"
| restarted: "visited c s0 s \<Longrightarrow> visited c s0 (s\<lparr>cur_x0 := xf s\<rparr>)"







text \<open>The default keyword values of \<open>AMPGO\<close>'s signature.\<close>

definition default_args :: ampgo_args where
  "default_args =
     \<lparr>local = ''L-BFGS-B'', bounds = None, maxfunevals = None, totaliter = 20, maxiter = 5,
      glbtol = Fin (1 / 10 ^ 5), eps1 = Fin (2 / 100), eps2 = Fin (1 / 10), tabulistsize = 5,
      tabustrategy = ''farthest'', fmin = NInf\<rparr>"


section \<open>The fitting engine: datasets and collaborators\<close>

text \<open>
  A row of a dataset's \<open>R1pD\<close> matrix in rate mode: the columns \<open>Offs\<close>, \<open>Spinlock\<close>,
  \<open>R1p\<close> and \<open>R1p_e\<close> (columns 0 to 3). In intensity mode \<open>R1pD\<close> is a stack of
  matrices, one per decay, whose rows hold (column 0, not read here) \<open>Offs\<close>, \<open>SLPs\<close>,
  \<open>Dlys\<close>, \<open>Ints\<close> and \<open>Ints_e\<close> (columns 1 to 5).
\<close>

type_synonym r1p_row = "fl \<times> fl \<times> fl \<times> fl"

type_synonym int_row = "fl \<times> fl \<times> fl \<times> fl \<times> fl \<times> fl"

text \<open>The \<open>Fits\<close> object of one dataset, with the attributes the fitting loop reads and
  writes. \<open>decays\<close> and \<open>decays_MC\<close> stand for \<open>R1pD\<close> and \<open>R1pD_MC\<close> in intensity mode.\<close>

record fits =
  R1pD :: "r1p_row list"
  R1p_MC :: "fl list"
  decays :: "int_row list list"
  decays_MC :: "int_row list list"
  lf :: fl
  time :: vec
  AlignMag :: string

text \<open>The module \<open>SimR1p\<close> is not part of the sources at hand: its three entry points are
  parameters. \<open>BMFitFunc\<close> and \<open>LagFitFunc\<close> are called with
  \<open>(tPars, SL, -1.*OF, lf, time, AlignMag, 0, kR1p)\<close> and \<open>BMFitFunc_ints\<close> with
  \<open>(tPars, SLPs[0], -Offs[0], lf, Dlys, AlignMag)\<close>; the latter answers with one
  intensity per delay.\<close>

record simulator =
  BMFitFunc :: "vec \<Rightarrow> fl \<Rightarrow> fl \<Rightarrow> fl \<Rightarrow> vec \<Rightarrow> string \<Rightarrow> fl \<Rightarrow> fl \<Rightarrow> fl"
  LagFitFunc :: "vec \<Rightarrow> fl \<Rightarrow> fl \<Rightarrow> fl \<Rightarrow> vec \<Rightarrow> string \<Rightarrow> fl \<Rightarrow> fl \<Rightarrow> fl"
  BMFitFunc_ints :: "vec \<Rightarrow> fl \<Rightarrow> fl \<Rightarrow> fl \<Rightarrow> vec \<Rightarrow> string \<Rightarrow> vec"

text \<open>The \<open>Global\<close> object (module \<open>FitData\<close>, not part of the sources at hand): the
  attributes the fitting loop reads, and its methods as parameters. \<open>RandomgP0\<close> draws a
  start vector; the draw of fit loop \<open>lp\<close> is \<open>RandomgP0 lp\<close>.\<close>

record global =
  gObs :: "fits list"
  gFitEqn :: string
  FitType :: string
  FitLoops :: nat
  rndStart :: bool
  gP0 :: vec
  gBnds :: "vec \<times> vec"
  dof :: int
  brutegP0 :: "vec list"
  UnpackgP0 :: "vec \<Rightarrow> fits \<Rightarrow> vec"
  UnpackErr :: "vec \<Rightarrow> fits \<Rightarrow> vec"
  RandomgP0 :: "nat \<Rightarrow> vec"

section \<open>The objective functions\<close>

definition chisq_R1p_ob :: "simulator \<Rightarrow> global \<Rightarrow> vec \<Rightarrow> fits \<Rightarrow> fl" where
  \<comment> \<open>what one dataset adds to \<open>chisq\<close> when \<open>DataType == "R1p"\<close>\<close>
  "chisq_R1p_ob sm gl Params ob =
     (let tPars = UnpackgP0 gl Params ob in
      if length (R1pD ob) > 1 then
        np_sum (map (\<lambda>(OF, SL, kR1p, err).
                  fsq (fdiv (fsub (BMFitFunc sm tPars SL (fmul (Fin (- 1)) OF) (lf ob) (time ob)
                                     (AlignMag ob) (Fin 0) kR1p) kR1p) err))
                (R1pD ob))
      else
        np_sum (map (\<lambda>(OF, SL, kR1p, err).
                  fdiv (fsq (fsub (BMFitFunc sm tPars SL (fmul (Fin (- 1)) OF) (lf ob) (time ob)
                                     (AlignMag ob) (Fin 0) kR1p) kR1p)) kR1p)
                (R1pD ob)))"

definition first_row :: "int_row list \<Rightarrow> py_error + int_row" where
  \<comment> \<open>index 0 of a column of a decay matrix raises \<open>IndexError\<close> when the matrix has no row\<close>
  "first_row d = (case d of [] \<Rightarrow> Inl IndexError | row # _ \<Rightarrow> Inr row)"

definition decay_residuals :: "simulator \<Rightarrow> vec \<Rightarrow> fits \<Rightarrow> int_row list \<Rightarrow> py_error + vec" where
  \<comment> \<open>\<open>(pv - Ints) / Ints_e\<close> for one decay, \<open>pv\<close> being the simulated decay vector\<close>
  "decay_residuals sm tPars ob d =
     (case first_row d of
        Inl e \<Rightarrow> Inl e
      | Inr (c0, Offs0, SLPs0, Dly0, Int0, Inte0) \<Rightarrow>
          (let Dlys = map (\<lambda>(c0, OF, SL, Dly, I, Ie). Dly) d;
               pv = BMFitFunc_ints sm tPars SLPs0 (fneg Offs0) (lf ob) Dlys (AlignMag ob)
           in Inr (map2 (\<lambda>p (c0, OF, SL, Dly, I, Ie). fdiv (fsub p I) Ie) pv d)))"

fun chisq_decays :: "simulator \<Rightarrow> vec \<Rightarrow> fits \<Rightarrow> int_row list list \<Rightarrow> fl \<Rightarrow> py_error + fl" where
  \<comment> \<open>the loop \<open>for d in ob.R1pD\<close> of the intensity branch\<close>
  "chisq_decays sm tPars ob [] chisq = Inr chisq"
| "chisq_decays sm tPars ob (d # ds) chisq =
     (case decay_residuals sm tPars ob d of
        Inl e \<Rightarrow> Inl e
      | Inr res \<Rightarrow> chisq_decays sm tPars ob ds (fadd chisq (np_sum (map fsq res))))"

fun chisq_loop :: "simulator \<Rightarrow> global \<Rightarrow> vec \<Rightarrow> string \<Rightarrow> fits list \<Rightarrow> fl \<Rightarrow> py_error + fl" where
  \<comment> \<open>the loop \<open>for ob in gl.gObs\<close> of \<open>chi2\<close>\<close>
  "chisq_loop sm gl Params DataType [] chisq = Inr chisq"
| "chisq_loop sm gl Params DataType (ob # obs) chisq =
     (if DataType = ''R1p'' then
        chisq_loop sm gl Params DataType obs (fadd chisq (chisq_R1p_ob sm gl Params ob))
      else if DataType = ''Ints'' then
        (case chisq_decays sm (UnpackgP0 gl Params ob) ob (decays ob) chisq of
           Inl e \<Rightarrow> Inl e
         | Inr chisq' \<Rightarrow> chisq_loop sm gl Params DataType obs chisq')
      else chisq_loop sm gl Params DataType obs chisq)"

definition chisq_accumulated :: "simulator \<Rightarrow> global \<Rightarrow> vec \<Rightarrow> string \<Rightarrow> py_error + fl" where
  \<comment> \<open>\<open>chisq\<close> when the loop over the datasets is done\<close>
  "chisq_accumulated sm gl Params DataType = chisq_loop sm gl Params DataType (gObs gl) (Fin 0)"

definition bad_value :: "fl \<Rightarrow> fl" where
  \<comment> \<open>\<open>if isnan(chisq) == True or isinf(chisq) == True: chisq = 1e4\<close>\<close>
  "bad_value chisq = (if isnan chisq \<or> isinf chisq then Fin 10000 else chisq)"

definition chi2 :: "simulator \<Rightarrow> global \<Rightarrow> vec \<Rightarrow> string \<Rightarrow> py_error + fl" where
  "chi2 sm gl Params DataType =
     (case chisq_accumulated sm gl Params DataType of
        Inl e \<Rightarrow> Inl e
      | Inr chisq \<Rightarrow> Inr (bad_value chisq))"

definition resid_R1p_ob :: "simulator \<Rightarrow> global \<Rightarrow> vec \<Rightarrow> bool \<Rightarrow> fits \<Rightarrow> vec" where
  \<comment> \<open>what one dataset adds to \<open>resid\<close> when \<open>DataType == "R1p"\<close>; \<open>mc\<close> says that the
      argument \<open>R1p_MC\<close> is not \<open>None\<close>\<close>
  "resid_R1p_ob sm gl Params mc ob =
     (let R1p = (if mc then R1p_MC ob else map (\<lambda>(OF, SL, kR1p, err). kR1p) (R1pD ob));
          tPars = UnpackgP0 gl Params ob
      in if gFitEqn gl = ''bm'' then
           (if length (R1pD ob) > 1 \<and> \<not> mc then
              map2 (\<lambda>(OF, SL, k, err) kR1p.
                      fdiv (fabs (fsub (BMFitFunc sm tPars SL (fmul (Fin (- 1)) OF) (lf ob) (time ob)
                                          (AlignMag ob) (Fin 0) kR1p) kR1p)) err)
                (R1pD ob) R1p
            else
              map2 (\<lambda>(OF, SL, k, err) kR1p.
                      fsub (BMFitFunc sm tPars SL (fmul (Fin (- 1)) OF) (lf ob) (time ob)
                              (AlignMag ob) (Fin 0) kR1p) kR1p)
                (R1pD ob) R1p)
         else if gFitEqn gl = ''lag'' then
           (if length (R1pD ob) > 1 \<and> \<not> mc then
              map2 (\<lambda>(OF, SL, k, err) kR1p.
                      fdiv (fsub (LagFitFunc sm tPars SL (fmul (Fin (- 1)) OF) (lf ob) (time ob)
                                    (AlignMag ob) (Fin 0) kR1p) kR1p) err)
                (R1pD ob) R1p
            else
              map2 (\<lambda>(OF, SL, k, err) kR1p.
                      fsub (LagFitFunc sm tPars SL (fmul (Fin (- 1)) OF) (lf ob) (time ob)
                              (AlignMag ob) (Fin 0) kR1p) kR1p)
                (R1pD ob) R1p)
         else [])"

fun resid_decays :: "simulator \<Rightarrow> vec \<Rightarrow> fits \<Rightarrow> int_row list list \<Rightarrow> py_error + vec list" where
  \<comment> \<open>\<open>resid.append(absolute((pv - Ints) / Ints_e))\<close> for every decay of a dataset\<close>
  "resid_decays sm tPars ob [] = Inr []"
| "resid_decays sm tPars ob (d # ds) =
     (case decay_residuals sm tPars ob d of
        Inl e \<Rightarrow> Inl e
      | Inr res \<Rightarrow>
          (case resid_decays sm tPars ob ds of
             Inl e \<Rightarrow> Inl e
           | Inr rows \<Rightarrow> Inr (map fabs res # rows)))"

fun resid_Ints :: "simulator \<Rightarrow> global \<Rightarrow> vec \<Rightarrow> bool \<Rightarrow> fits list \<Rightarrow> py_error + vec list" where
  "resid_Ints sm gl Params mc [] = Inr []"
| "resid_Ints sm gl Params mc (ob # obs) =
     (case resid_decays sm (UnpackgP0 gl Params ob) ob (if mc then decays_MC ob else decays ob) of
        Inl e \<Rightarrow> Inl e
      | Inr rows \<Rightarrow>
          (case resid_Ints sm gl Params mc obs of
             Inl e \<Rightarrow> Inl e
           | Inr later \<Rightarrow> Inr (rows @ later)))"

definition reshape_flat :: "vec list \<Rightarrow> py_error + vec" where
  \<comment> \<open>\<open>asarray(resid)\<close>, then \<open>reshape(resid, resid.shape[0] * resid.shape[1])\<close>: an empty
      list gives an array with no second axis, rows of different lengths give no array\<close>
  "reshape_flat rows =
     (case rows of
        [] \<Rightarrow> Inl IndexError
      | row # later \<Rightarrow>
          if list_all (\<lambda>other. length other = length row) later then Inr (concat rows)
          else Inl (ValueError ''inhomogeneous shape''))"

definition resid_collected :: "simulator \<Rightarrow> global \<Rightarrow> vec \<Rightarrow> bool \<Rightarrow> string \<Rightarrow> py_error + vec" where
  \<comment> \<open>\<open>resid\<close> before the test for \<open>NaN\<close> and \<open>inf\<close>\<close>
  "resid_collected sm gl Params mc DataType =
     (if DataType = ''Ints'' then
        (case resid_Ints sm gl Params mc (gObs gl) of
           Inl e \<Rightarrow> Inl e
         | Inr rows \<Rightarrow> reshape_flat rows)
      else if DataType = ''R1p'' then Inr (concat (map (resid_R1p_ob sm gl Params mc) (gObs gl)))
      else Inr [])"

definition float_max :: real where
  \<comment> \<open>the largest finite \<open>float64\<close>\<close>
  "float_max = (2 - 1 / 2 ^ 52) * 2 ^ 1023"

fun nan_to_num1 :: "fl \<Rightarrow> fl" where
  "nan_to_num1 NaN = Fin 0"
| "nan_to_num1 PInf = Fin float_max"
| "nan_to_num1 NInf = Fin (- float_max)"
| "nan_to_num1 (Fin a) = Fin a"

definition nan_to_num :: "vec \<Rightarrow> vec" where
  "nan_to_num v = map nan_to_num1 v"

definition replace_bad :: "vec \<Rightarrow> vec" where
  \<comment> \<open>\<open>if isnan(resid).any() == True or isinf(resid).any() == True: resid = nan_to_num(resid)\<close>\<close>
  "replace_bad resid = (if list_ex isnan resid \<or> list_ex isinf resid then nan_to_num resid else resid)"

definition residual :: "simulator \<Rightarrow> global \<Rightarrow> vec \<Rightarrow> bool \<Rightarrow> string \<Rightarrow> py_error + vec" where
  "residual sm gl Params mc DataType =
     (case resid_collected sm gl Params mc DataType of
        Inl e \<Rightarrow> Inl e
      | Inr resid \<Rightarrow> Inr (replace_bad resid))"

section \<open>The fitting loop of \<open>Main\<close>\<close>

text \<open>
  What the loop takes from libraries and from modules that are not part of the sources
  at hand: the simulator, \<open>scipy.optimize.least_squares\<close> (called with the residual
  function, a start vector, the bounds and \<open>max_nfev\<close>), \<open>Stats.cStdErr\<close> (its first
  result), the draws of \<open>numpy.random.normal\<close> (a draw is named by its place in the run),
  \<open>std(axis=0)\<close> of a matrix, and the local solver and uniform draws \<open>AMPGO\<close> uses in a
  given fit loop. Printing, plotting and the writing of files are left out; the calls of
  \<open>gl.UnPackFits\<close> are kept, in order, as the fit records of the run.
\<close>

record ls_result =
  opt_x :: vec
  opt_fun :: vec
  opt_jac :: "vec list"
  opt_nfev :: int

record libs =
  sim :: simulator
  least_squares :: "(vec \<Rightarrow> py_error + vec) \<Rightarrow> vec \<Rightarrow> vec \<times> vec \<Rightarrow> int \<Rightarrow> py_error + ls_result"
  cStdErr :: "vec \<Rightarrow> vec \<Rightarrow> vec list \<Rightarrow> int \<Rightarrow> vec"
  normal :: "nat list \<Rightarrow> fl \<Rightarrow> fl \<Rightarrow> fl"
  np_std :: "vec list \<Rightarrow> vec"
  ampgo_env_of :: "nat \<Rightarrow> ampgo_env"

text \<open>One call \<open>gl.UnPackFits(index, pars, redChiSq, nfev, stage, ob, errPars=...)\<close>.\<close>

record fit_record =
  fit_index :: nat
  fit_pars :: vec
  fit_redChiSq :: fl
  fit_nfev :: int
  fit_stage :: string
  fit_ob :: fits
  fit_errPars :: "vec option"

definition and_then :: "py_error + 'a \<Rightarrow> ('a \<Rightarrow> py_error + 'b) \<Rightarrow> py_error + 'b" where
  \<comment> \<open>sequencing: an exception ends the computation\<close>
  "and_then r k = (case r of Inl e \<Rightarrow> Inl e | Inr v \<Rightarrow> k v)"

fun for_each :: "('a \<Rightarrow> py_error + 'b list) \<Rightarrow> 'a list \<Rightarrow> py_error + 'b list" where
  \<comment> \<open>a \<open>for\<close> loop that collects what each pass produces\<close>
  "for_each body [] = Inr []"
| "for_each body (a # rest) =
     and_then (body a) (\<lambda>made. and_then (for_each body rest) (\<lambda>later. Inr (made @ later)))"

definition reduced :: "global \<Rightarrow> fl \<Rightarrow> fl" where
  \<comment> \<open>\<open>chisq / gl.dof\<close>, the degrees of freedom being an integer other than zero\<close>
  "reduced gl chisq = fdiv chisq (Fin (of_int (dof gl)))"

definition value_of :: "py_error + fl \<Rightarrow> fl" where
  \<comment> \<open>the value of a call that does not raise\<close>
  "value_of r = (case r of Inl e \<Rightarrow> NaN | Inr v \<Rightarrow> v)"

definition start_vector :: "global \<Rightarrow> nat \<Rightarrow> vec" where
  \<comment> \<open>\<open>tP0\<close>: \<open>gl.RandomgP0()\<close> if \<open>gl.rndStart\<close>, else \<open>gl.gP0\<close>\<close>
  "start_vector gl lp = (if rndStart gl then RandomgP0 gl lp else gP0 gl)"

subsection \<open>Global fit with polish\<close>

text \<open>\<open>AMPGO\<close> minimizes \<open>chi2\<close> with its default data type, for which \<open>chi2\<close> never raises.\<close>

definition global_fit :: "libs \<Rightarrow> global \<Rightarrow> nat \<Rightarrow> py_error + fit_record list" where
  "global_fit L gl lp =
     (let tP0 = start_vector gl lp;
          bs = map2 (\<lambda>lo hi. Some (Some lo, Some hi)) (fst (gBnds gl)) (snd (gBnds gl))
      in and_then
           (AMPGO (ampgo_env_of L lp) (\<lambda>p. value_of (chi2 (sim L) gl p ''R1p'')) tP0
              (default_args\<lparr>bounds := Some bs, maxiter := 5, tabulistsize := 8, totaliter := 10,
                              maxfunevals := Some 2000\<rparr>))
           (\<lambda>(found_x, found_f, evals, msg, tt).
              (let global_records =
                     map (\<lambda>ob. \<lparr>fit_index = lp + 1, fit_pars = UnpackgP0 gl found_x ob,
                                 fit_redChiSq = reduced gl found_f, fit_nfev = evals,
                                 fit_stage = ''global'', fit_ob = ob, fit_errPars = None\<rparr>)
                       (gObs gl)
               in and_then
                    (least_squares L (\<lambda>p. residual (sim L) gl p False ''R1p'') found_x (gBnds gl) 10000)
                    (\<lambda>fitted.
                       and_then
                         (for_each
                            (\<lambda>ob. and_then (chi2 (sim L) gl (opt_x fitted) ''R1p'')
                               (\<lambda>chisq.
                                  (let fiterr = cStdErr L (opt_x fitted) (opt_fun fitted) (opt_jac fitted) (dof gl)
                                   in Inr [\<lparr>fit_index = lp + 1, fit_pars = UnpackgP0 gl (opt_x fitted) ob,
                                            fit_redChiSq = reduced gl chisq, fit_nfev = opt_nfev fitted,
                                            fit_stage = ''polish'', fit_ob = ob,
                                            fit_errPars = Some (UnpackErr gl fiterr ob)\<rparr>])))
                            (gObs gl))
                         (\<lambda>polish_records. Inr (global_records @ polish_records))))))"

subsection \<open>Local fit\<close>

definition corrupt_R1p :: "libs \<Rightarrow> nat \<Rightarrow> nat \<Rightarrow> fits list \<Rightarrow> fits list" where
  \<comment> \<open>\<open>ob.R1p_MC = array([normal(y, ye) for y, ye in zip(ob.R1pD[:,2], ob.R1pD[:,3])])\<close>
      for every dataset, in Monte-Carlo pass \<open>i\<close> of fit loop \<open>lp\<close>\<close>
  "corrupt_R1p L lp i obs =
     map (\<lambda>(k, ob).
            ob\<lparr>R1p_MC := map (\<lambda>(j, (OF, SL, y, ye)). normal L [lp, i, k, j] y ye)
                             (enumerate 0 (R1pD ob))\<rparr>)
       (enumerate 0 obs)"

fun mc_refits_R1p :: "libs \<Rightarrow> global \<Rightarrow> nat \<Rightarrow> vec \<Rightarrow> nat list \<Rightarrow> py_error + global \<times> vec list" where
  \<comment> \<open>the loop \<open>for i in range(fitMC)\<close>: the datasets as the last pass leaves them, and \<open>tpars\<close>\<close>
  "mc_refits_R1p L gl lp x0 [] = Inr (gl, [])"
| "mc_refits_R1p L gl lp x0 (i # rest) =
     (let gl1 = gl\<lparr>gObs := corrupt_R1p L lp i (gObs gl)\<rparr>
      in and_then (least_squares L (\<lambda>p. residual (sim L) gl1 p True ''R1p'') x0 (gBnds gl1) 10000)
           (\<lambda>refit. and_then (mc_refits_R1p L gl1 lp x0 rest)
              (\<lambda>(gl2, tpars). Inr (gl2, opt_x refit # tpars))))"

definition local_fiterr :: "libs \<Rightarrow> global \<Rightarrow> ls_result \<Rightarrow> fits \<Rightarrow> vec" where
  \<comment> \<open>\<open>fiterr\<close> when \<open>mcerr == False\<close>\<close>
  "local_fiterr L gl fitted ob =
     (if np_sum (map (\<lambda>(OF, SL, k, err). err) (R1pD ob)) \<noteq> Fin 0
      then cStdErr L (opt_x fitted) (opt_fun fitted) (opt_jac fitted) (dof gl)
      else replicate (length (opt_x fitted)) (Fin 0))"

definition mc_records ::
  "global \<Rightarrow> ls_result \<Rightarrow> vec \<Rightarrow> fits \<Rightarrow> vec list \<Rightarrow> fl list \<Rightarrow> fit_record list" where
  \<comment> \<open>\<open>for idx,(f,r) in enumerate(zip(MCpars, RCS_list))\<close>\<close>
  "mc_records gl fitted fiterr ob MCpars RCS_list =
     map (\<lambda>(idx, (f, r)).
            \<lparr>fit_index = idx + 1, fit_pars = UnpackgP0 gl f ob, fit_redChiSq = r,
             fit_nfev = opt_nfev fitted, fit_stage = ''mcerr'', fit_ob = ob,
             fit_errPars = Some (UnpackErr gl fiterr ob)\<rparr>)
       (enumerate 0 (zip MCpars RCS_list))"

definition local_records ::
  "libs \<Rightarrow> global \<Rightarrow> bool \<Rightarrow> nat \<Rightarrow> ls_result \<Rightarrow> vec list \<Rightarrow> fits \<Rightarrow> py_error + fit_record list" where
  \<comment> \<open>one pass of the loop \<open>for ob in gl.gObs\<close> after a local fit\<close>
  "local_records L gl mcerr lp fitted MCpars ob =
     and_then (chi2 (sim L) gl (opt_x fitted) ''R1p'')
       (\<lambda>chisq.
          and_then
            (if \<not> mcerr then Inr (local_fiterr L gl fitted ob, [])
             else and_then
                    (for_each (\<lambda>p. and_then (chi2 (sim L) gl p ''R1p'') (\<lambda>c. Inr [reduced gl c])) MCpars)
                    (\<lambda>RCS_list. Inr (np_std L MCpars,
                                      mc_records gl fitted (np_std L MCpars) ob MCpars RCS_list)))
            (\<lambda>(fiterr, mc).
               Inr (mc @ [\<lparr>fit_index = lp + 1, fit_pars = UnpackgP0 gl (opt_x fitted) ob,
                            fit_redChiSq = reduced gl chisq, fit_nfev = opt_nfev fitted,
                            fit_stage = ''local'', fit_ob = ob,
                            fit_errPars = Some (UnpackErr gl fiterr ob)\<rparr>])))"

definition local_fit ::
  "libs \<Rightarrow> bool \<Rightarrow> int \<Rightarrow> global \<Rightarrow> nat \<Rightarrow> py_error + global \<times> fit_record list" where
  "local_fit L mcerr fitMC gl lp =
     and_then (least_squares L (\<lambda>p. residual (sim L) gl p False ''R1p'') (start_vector gl lp) (gBnds gl) 10000)
       (\<lambda>fitted.
          and_then
            (if mcerr then mc_refits_R1p L gl lp (opt_x fitted) [0..<nat fitMC] else Inr (gl, []))
            (\<lambda>(gl1, MCpars).
               and_then (for_each (local_records L gl1 mcerr lp fitted MCpars) (gObs gl1))
                 (\<lambda>records. Inr (gl1, records))))"

subsection \<open>Local fit of intensities\<close>

definition corrupt_Ints :: "libs \<Rightarrow> nat \<Rightarrow> nat \<Rightarrow> fits list \<Rightarrow> fits list" where
  \<comment> \<open>\<open>ob.R1pD_MC = ob.R1pD.copy()\<close> with column 4 of every decay redrawn\<close>
  "corrupt_Ints L lp i obs =
     map (\<lambda>(k, ob).
            ob\<lparr>decays_MC :=
                 map (\<lambda>(n, d).
                        map (\<lambda>(j, (c0, OF, SL, Dly, y, ye)). (c0, OF, SL, Dly, normal L [lp, i, k, n, j] y ye, ye))
                          (enumerate 0 d))
                   (enumerate 0 (decays ob))\<rparr>)
       (enumerate 0 obs)"

fun mc_refits_Ints :: "libs \<Rightarrow> global \<Rightarrow> nat \<Rightarrow> vec \<Rightarrow> nat list \<Rightarrow> py_error + global \<times> vec list" where
  "mc_refits_Ints L gl lp x0 [] = Inr (gl, [])"
| "mc_refits_Ints L gl lp x0 (i # rest) =
     (let gl1 = gl\<lparr>gObs := corrupt_Ints L lp i (gObs gl)\<rparr>
      in and_then (least_squares L (\<lambda>p. residual (sim L) gl1 p True ''Ints'') x0 (gBnds gl1) 10000)
           (\<lambda>refit. and_then (mc_refits_Ints L gl1 lp x0 rest)
              (\<lambda>(gl2, tpars). Inr (gl2, opt_x refit # tpars))))"

definition first_errors :: "fits \<Rightarrow> py_error + vec" where
  \<comment> \<open>\<open>ob.R1pD[:,0][:,5]\<close>: the error of the first row of every decay\<close>
  "first_errors ob =
     (if decays ob = [] then Inl IndexError
      else for_each (\<lambda>d. and_then (first_row d) (\<lambda>(c0, OF, SL, Dly, I, Ie). Inr [Ie])) (decays ob))"

definition localint_records ::
  "libs \<Rightarrow> global \<Rightarrow> bool \<Rightarrow> nat \<Rightarrow> ls_result \<Rightarrow> vec list \<Rightarrow> fits \<Rightarrow> py_error + fit_record list" where
  "localint_records L gl mcerr lp fitted MCpars ob =
     and_then (chi2 (sim L) gl (opt_x fitted) ''Ints'')
       (\<lambda>chisq.
          and_then
            (if \<not> mcerr then
               and_then (first_errors ob)
                 (\<lambda>errs. Inr (if np_sum errs \<noteq> Fin 0
                               then cStdErr L (opt_x fitted) (opt_fun fitted) (opt_jac fitted) (dof gl)
                               else replicate (length (opt_x fitted)) (Fin 0), []))
             else and_then
                    (for_each (\<lambda>p. and_then (chi2 (sim L) gl (opt_x fitted) ''Ints'')
                                      (\<lambda>c. Inr [reduced gl c])) MCpars)
                    (\<lambda>RCS_list. Inr (np_std L MCpars,
                                      mc_records gl fitted (np_std L MCpars) ob MCpars RCS_list)))
            (\<lambda>(fiterr, mc).
               Inr (mc @ [\<lparr>fit_index = lp + 1, fit_pars = UnpackgP0 gl (opt_x fitted) ob,
                            fit_redChiSq = reduced gl chisq, fit_nfev = opt_nfev fitted,
                            fit_stage = ''local'', fit_ob = ob,
                            fit_errPars = Some (UnpackErr gl fiterr ob)\<rparr>])))"

definition localint_fit ::
  "libs \<Rightarrow> bool \<Rightarrow> int \<Rightarrow> global \<Rightarrow> nat \<Rightarrow> py_error + global \<times> fit_record list" where
  "localint_fit L mcerr fitMC gl lp =
     (if gObs gl = [] then Inl IndexError
      else
        and_then (least_squares L (\<lambda>p. residual (sim L) gl p False ''Ints'') (start_vector gl lp) (gBnds gl) 10000)
          (\<lambda>fitted.
             and_then
               (if mcerr then mc_refits_Ints L gl lp (opt_x fitted) [0..<nat fitMC] else Inr (gl, []))
               (\<lambda>(gl1, MCpars).
                  and_then (for_each (localint_records L gl1 mcerr lp fitted MCpars) (gObs gl1))
                    (\<lambda>records. Inr (gl1, records)))))"

subsection \<open>Brute-force search\<close>

text \<open>A dictionary with float keys, in insertion order.\<close>

fun dict_set :: "fl \<Rightarrow> 'v \<Rightarrow> (fl \<times> 'v) list \<Rightarrow> (fl \<times> 'v) list" where
  "dict_set k v [] = [(k, v)]"
| "dict_set k v ((k', v') # rest) = (if k' = k then (k, v) # rest else (k', v') # dict_set k v rest)"

fun min_scan :: "fl \<Rightarrow> fl list \<Rightarrow> fl" where
  "min_scan m [] = m"
| "min_scan m (k # ks) = min_scan (if fless k m then k else m) ks"

definition py_min :: "fl list \<Rightarrow> py_error + fl" where
  \<comment> \<open>the builtin \<open>min\<close>\<close>
  "py_min ks = (case ks of [] \<Rightarrow> Inl (ValueError ''min() arg is an empty sequence'')
                | k # rest \<Rightarrow> Inr (min_scan k rest))"

fun brute_scores :: "libs \<Rightarrow> global \<Rightarrow> vec \<Rightarrow> ls_result \<Rightarrow> fits list \<Rightarrow> (fl \<times> vec) list
    \<Rightarrow> py_error + (fl \<times> vec) list" where
  \<comment> \<open>the loop \<open>for ob in gl.gObs\<close> of \<open>Brute_loop\<close>, for what it stores: \<open>allfits[redChiSq] = gf\<close>\<close>
  "brute_scores L gl gf fitted [] allfits = Inr allfits"
| "brute_scores L gl gf fitted (ob # obs) allfits =
     and_then (chi2 (sim L) gl (opt_x fitted) ''R1p'')
       (\<lambda>chisq. brute_scores L gl gf fitted obs (dict_set (reduced gl chisq) gf allfits))"

definition Brute_loop :: "libs \<Rightarrow> global \<Rightarrow> nat \<Rightarrow> py_error + (fl \<times> vec) list" where
  \<comment> \<open>the dictionary \<open>allfits\<close> a worker returns for grid index \<open>idx\<close>; the fit records a
      worker process makes stay in that process\<close>
  "Brute_loop L gl idx =
     (if idx < length (brutegP0 gl) then
        (let gf = brutegP0 gl ! idx
         in and_then (least_squares L (\<lambda>p. residual (sim L) gl p False ''R1p'') gf (gBnds gl) 1)
              (\<lambda>fitted. brute_scores L gl gf fitted (gObs gl) []))
      else Inl IndexError)"

definition parmap :: "(nat \<Rightarrow> py_error + 'a) \<Rightarrow> nat list \<Rightarrow> py_error + 'a list" where
  \<comment> \<open>the workers' answers \<open>(i, f(x))\<close>, sorted by \<open>i\<close>: the list of \<open>f(x)\<close> in the order of \<open>X\<close>.
      A worker in which \<open>f\<close> raises dies without putting an answer, and the parent waits
      for \<open>len(X)\<close> answers: the call does not return\<close>
  "parmap f X =
     (case for_each (\<lambda>x. and_then (f x) (\<lambda>y. Inr [y])) X of
        Inl e \<Rightarrow> Inl Blocked
      | Inr res \<Rightarrow> Inr res)"

definition brute_seed :: "libs \<Rightarrow> global \<Rightarrow> py_error + vec" where
  \<comment> \<open>\<open>allfits = parmap(...)\<close>; \<open>allfits = dict(allfits[0])\<close>; \<open>tP0 = allfits[min(allfits.keys())]\<close>\<close>
  "brute_seed L gl =
     and_then (parmap (Brute_loop L gl) [0..<length (brutegP0 gl)])
       (\<lambda>answers.
          case answers of
            [] \<Rightarrow> Inl IndexError
          | allfits # others \<Rightarrow>
              and_then (py_min (map fst allfits))
                (\<lambda>lowest. case map_of allfits lowest of None \<Rightarrow> Inl KeyError | Some tP0 \<Rightarrow> Inr tP0))"

definition brute_fit :: "libs \<Rightarrow> global \<Rightarrow> py_error + fit_record list" where
  "brute_fit L gl =
     and_then (brute_seed L gl)
       (\<lambda>tP0.
          and_then (least_squares L (\<lambda>p. residual (sim L) gl p False ''R1p'') tP0 (gBnds gl) 10000)
            (\<lambda>fitted.
               for_each
                 (\<lambda>ob. and_then (chi2 (sim L) gl (opt_x fitted) ''R1p'')
                    (\<lambda>chisq.
                       (let fiterr = cStdErr L (opt_x fitted) (opt_fun fitted) (opt_jac fitted) (dof gl)
                        in Inr [\<lparr>fit_index = length (brutegP0 gl) + 1,
                                 fit_pars = UnpackgP0 gl (opt_x fitted) ob,
                                 fit_redChiSq = reduced gl chisq, fit_nfev = opt_nfev fitted,
                                 fit_stage = ''local'', fit_ob = ob,
                                 fit_errPars = Some (UnpackErr gl fiterr ob)\<rparr>])))
                 (gObs gl)))"

subsection \<open>The loop over \<open>gl.FitLoops\<close>\<close>

definition one_fit ::
  "libs \<Rightarrow> bool \<Rightarrow> int \<Rightarrow> global \<Rightarrow> nat \<Rightarrow> py_error + global \<times> fit_record list" where
  "one_fit L mcerr fitMC gl lp =
     (if FitType gl = ''global'' then and_then (global_fit L gl lp) (\<lambda>records. Inr (gl, records))
      else if FitType gl = ''local'' then local_fit L mcerr fitMC gl lp
      else if FitType gl = ''localint'' then localint_fit L mcerr fitMC gl lp
      else if FitType gl = ''bruteint'' \<or> FitType gl = ''bruteintp'' then Inr (gl, [])
      else if FitType gl = ''brute'' \<or> FitType gl = ''brutep''
        then and_then (brute_fit L gl) (\<lambda>records. Inr (gl, records))
      else Inr (gl, []))"

fun fit_loops ::
  "libs \<Rightarrow> bool \<Rightarrow> int \<Rightarrow> global \<Rightarrow> nat list \<Rightarrow> py_error + global \<times> fit_record list" where
  "fit_loops L mcerr fitMC gl [] = Inr (gl, [])"
| "fit_loops L mcerr fitMC gl (lp # rest) =
     and_then (one_fit L mcerr fitMC gl lp)
       (\<lambda>(gl1, records).
          and_then (fit_loops L mcerr fitMC gl1 rest)
            (\<lambda>(gl2, later). Inr (gl2, records @ later)))"

definition Main_fit :: "libs \<Rightarrow> bool \<Rightarrow> int \<Rightarrow> global \<Rightarrow> py_error + fit_record list" where
  \<comment> \<open>\<open>for lp in range(gl.FitLoops)\<close>, from the flag \<open>mcerr\<close> and the count \<open>fitMC\<close> of the
      command line: the fit records of the run\<close>
  "Main_fit L mcerr fitMC gl =
     and_then (fit_loops L mcerr fitMC gl [0..<FitLoops gl]) (\<lambda>(gl1, records). Inr records)"

section \<open>The chi-square as the specification states it\<close>

text \<open>
  The specification's chi-square in rate mode, in the specification's words: the sum,
  over the datasets, of the sums over the data points of a dataset. A dataset has a
  per-point error when it has an error column; a dataset without one carries a column
  of zeros, which is how the program's own test for a missing error column,
  \<open>ob.R1pD[:,3].sum() != 0.\<close>, and section 4.6 of the specification ("unweighted fit with
  no error column") tell the two apart. The number of data points plays no part, and no
  value is replaced.
\<close>

definition error_available :: "fits \<Rightarrow> bool" where
  "error_available ob \<longleftrightarrow> np_sum (map (\<lambda>(OF, SL, k, err). err) (R1pD ob)) \<noteq> Fin 0"

definition stated_term :: "simulator \<Rightarrow> global \<Rightarrow> vec \<Rightarrow> fits \<Rightarrow> r1p_row \<Rightarrow> fl" where
  "stated_term sm gl Params ob point =
     (case point of (offset, spinlock, observed, uncertainty) \<Rightarrow>
        (let predicted = BMFitFunc sm (UnpackgP0 gl Params ob) spinlock (fmul (Fin (- 1)) offset)
                           (lf ob) (time ob) (AlignMag ob) (Fin 0) observed
         in if error_available ob then fsq (fdiv (fsub predicted observed) uncertainty)
            else fdiv (fsq (fsub predicted observed)) observed))"

definition stated_chisq :: "simulator \<Rightarrow> global \<Rightarrow> vec \<Rightarrow> fl" where
  "stated_chisq sm gl Params =
     np_sum (map (\<lambda>ob. np_sum (map (stated_term sm gl Params ob) (R1pD ob))) (gObs gl))"

section \<open>Notions used in the proofs\<close>

definition below :: "bool \<Rightarrow> fl \<Rightarrow> fl \<Rightarrow> bool" where
  \<comment> \<open>a finite non-negative value under a positive, possibly infinite one\<close>
  "below strict d d' =
     (\<exists>p. d = Fin p \<and> 0 \<le> p \<and>
        (d' = PInf \<or> (\<exists>p'. d' = Fin p' \<and> 0 < p' \<and> (if strict then p < p' else p \<le> p'))))"

definition flat_objective :: "real \<Rightarrow> vec \<Rightarrow> fl" where
  \<comment> \<open>a constant objective, for concrete instances\<close>
  "flat_objective v x = Fin v"


definition still_solver ::
  "(vec \<Rightarrow> fl) \<Rightarrow> vec \<Rightarrow> string \<Rightarrow> (fl option \<times> fl option) option list \<Rightarrow> fl \<Rightarrow> int \<Rightarrow> vec \<times> fl \<times> int" where
  \<comment> \<open>a local solver that evaluates the objective once and stays at the start point\<close>
  "still_solver g x method bs tol cap = (x, g x, 1)"





definition zero_draws :: "nat \<Rightarrow> vec" where
  "zero_draws k = [Fin 0]"

definition demo_env :: ampgo_env where
  "demo_env = \<lparr>SCIPY = True, OPENOPT = False, minimize = still_solver, uniform = zero_draws\<rparr>"

text \<open>A small fitting problem for concrete instances: one dataset of two points with unit
  errors, and a simulator that predicts the square root of the first parameter (not a
  number for a negative parameter).\<close>

definition root_predictor :: "vec \<Rightarrow> fl \<Rightarrow> fl \<Rightarrow> fl \<Rightarrow> vec \<Rightarrow> string \<Rightarrow> fl \<Rightarrow> fl \<Rightarrow> fl" where
  "root_predictor tPars SL OF larmor delays align z kR1p = (case tPars of [] \<Rightarrow> NaN | p # _ \<Rightarrow> fsqrt p)"

definition unit_decay :: "vec \<Rightarrow> fl \<Rightarrow> fl \<Rightarrow> fl \<Rightarrow> vec \<Rightarrow> string \<Rightarrow> vec" where
  "unit_decay tPars SL OF larmor delays align = map (\<lambda>d. Fin 1) delays"

definition demo_sim :: simulator where
  "demo_sim = \<lparr>BMFitFunc = root_predictor, LagFitFunc = root_predictor, BMFitFunc_ints = unit_decay\<rparr>"

definition whole_vector :: "vec \<Rightarrow> fits \<Rightarrow> vec" where
  "whole_vector p ob = p"

definition fixed_start :: "nat \<Rightarrow> vec" where
  "fixed_start lp = [Fin 4]"

definition demo_ob :: fits where
  "demo_ob =
     \<lparr>R1pD = [(Fin 0, Fin 100, Fin 2, Fin 1), (Fin 10, Fin 100, Fin 3, Fin 1)], R1p_MC = [],
      decays = [], decays_MC = [], lf = Fin 600, time = [], AlignMag = ''auto''\<rparr>"

definition demo_global :: global where
  "demo_global =
     \<lparr>gObs = [demo_ob], gFitEqn = ''bm'', FitType = ''local'', FitLoops = 1, rndStart = False,
      gP0 = [Fin 4], gBnds = ([Fin 0], [Fin 10]), dof = 1, brutegP0 = [[Fin 1], [Fin 4]],
      UnpackgP0 = whole_vector, UnpackErr = whole_vector, RandomgP0 = fixed_start\<rparr>"

text \<open>Stand-ins for the libraries, for concrete instances: a least-squares routine that
  evaluates the residuals once and stays at the start vector, unit standard errors,
  normal draws that return the mean, and a zero spread.\<close>

definition still_least_squares ::
  "(vec \<Rightarrow> py_error + vec) \<Rightarrow> vec \<Rightarrow> vec \<times> vec \<Rightarrow> int \<Rightarrow> py_error + ls_result" where
  "still_least_squares res x0 bs max_nfev =
     and_then (res x0) (\<lambda>r. Inr \<lparr>opt_x = x0, opt_fun = r, opt_jac = [], opt_nfev = 1\<rparr>)"

definition unit_errors :: "vec \<Rightarrow> vec \<Rightarrow> vec list \<Rightarrow> int \<Rightarrow> vec" where
  "unit_errors p r j d = map (\<lambda>v. Fin 1) p"

definition mean_draw :: "nat list \<Rightarrow> fl \<Rightarrow> fl \<Rightarrow> fl" where
  "mean_draw place mu sigma = mu"

definition no_spread :: "vec list \<Rightarrow> vec" where
  "no_spread rows = (case rows of [] \<Rightarrow> [] | r # others \<Rightarrow> map (\<lambda>v. Fin 0) r)"

definition demo_envs :: "nat \<Rightarrow> ampgo_env" where
  "demo_envs lp = demo_env"

definition demo_libs :: libs where
  "demo_libs =
     \<lparr>sim = demo_sim, least_squares = still_least_squares, cStdErr = unit_errors,
      normal = mean_draw, np_std = no_spread, ampgo_env_of = demo_envs\<rparr>"

definition demo_global_fit :: global where
  "demo_global_fit = demo_global\<lparr>FitType := ''global''\<rparr>"

definition demo_ob_unweighted :: fits where
  \<comment> \<open>the same two points with an error column of zeros\<close>
  "demo_ob_unweighted =
     demo_ob\<lparr>R1pD := [(Fin 0, Fin 100, Fin 2, Fin 0), (Fin 10, Fin 100, Fin 3, Fin 0)]\<rparr>"



definition demo_global_unweighted :: global where
  "demo_global_unweighted = demo_global\<lparr>gObs := [demo_ob_unweighted]\<rparr>"

definition demo_fitted :: ls_result where
  "demo_fitted = \<lparr>opt_x = [Fin 4], opt_fun = [Fin 0, Fin 1], opt_jac = [], opt_nfev = 1\<rparr>"

section \<open>Comparison and argmax\<close>

lemma fless_trans: "fless a b \<Longrightarrow> fless b c \<Longrightarrow> fless a c"
  by (cases a; cases b; cases c; simp)

lemma fless_asym: "fless a b \<Longrightarrow> \<not> fless b a"
  by (cases a; cases b; simp)

lemma fle_not_fless: "fle a b \<Longrightarrow> \<not> fless b a"
  by (cases a; cases b; auto)

lemma not_fle_cases: "\<not> fle d b \<Longrightarrow> isnan b \<or> isnan d \<or> fless b d"
  by (cases d; cases b; auto)

lemma not_fless_nan: "isnan a \<Longrightarrow> \<not> fless a b"
  by (cases a; simp)

lemma argmax_scan_max:
  "length pre = i \<Longrightarrow> best_i < i \<Longrightarrow> pre ! best_i = best \<Longrightarrow>
   \<forall>j<i. \<not> fless best (pre ! j) \<Longrightarrow>
   argmax_scan ds i best_i best < i + length ds \<and>
   (\<forall>j < i + length ds. \<not> fless ((pre @ ds) ! argmax_scan ds i best_i best) ((pre @ ds) ! j))"
proof (induction ds arbitrary: pre i best_i best)
  case Nil
  then show ?case by simp
next
  case (Cons d ds)
  show ?case
  proof (cases "isnan best")
    case True
    then have "\<forall>j. \<not> fless ((pre @ d # ds) ! best_i) ((pre @ d # ds) ! j)"
      using Cons.prems by (simp add: nth_append not_fless_nan)
    with True Cons.prems show ?thesis by simp
  next
    case notnan: False
    show ?thesis
    proof (cases "fle d best")
      case True
      have a: "length (pre @ [d]) = Suc i" using Cons.prems by simp
      have b: "best_i < Suc i" using Cons.prems by simp
      have c: "(pre @ [d]) ! best_i = best" using Cons.prems by (simp add: nth_append)
      have d: "\<forall>j<Suc i. \<not> fless best ((pre @ [d]) ! j)"
        using Cons.prems True by (auto simp: nth_append less_Suc_eq dest: fle_not_fless)
      from Cons.IH[OF a b c d] True notnan show ?thesis by simp
    next
      case False
      then have dn: "isnan d \<or> fless best d" using notnan not_fle_cases by blast
      have a: "length (pre @ [d]) = Suc i" using Cons.prems by simp
      have b: "i < Suc i" by simp
      have c: "(pre @ [d]) ! i = d" using Cons.prems by (simp add: nth_append)
      have d: "\<forall>j<Suc i. \<not> fless d ((pre @ [d]) ! j)"
      proof (intro allI impI)
        fix j assume "j < Suc i"
        show "\<not> fless d ((pre @ [d]) ! j)"
        proof (cases "j = i")
          case True
          then show ?thesis using Cons.prems fless_asym by (auto simp: nth_append)
        next
          case False
          then have "j < i" using \<open>j < Suc i\<close> by simp
          then have "\<not> fless best (pre ! j)" using Cons.prems by simp
          then have "\<not> fless d (pre ! j)" using dn fless_trans not_fless_nan by blast
          then show ?thesis using \<open>j < i\<close> Cons.prems by (simp add: nth_append)
        qed
      qed
      from Cons.IH[OF a b c d] False notnan show ?thesis by simp
    qed
  qed
qed

lemma np_argmax_max:
  assumes "ds \<noteq> []"
  shows "np_argmax ds < length ds \<and> (\<forall>j<length ds. \<not> fless (ds ! np_argmax ds) (ds ! j))"
proof -
  obtain d rest where ds: "ds = d # rest" using assms by (cases ds) auto
  have "argmax_scan rest 1 0 d < 1 + length rest \<and>
        (\<forall>j < 1 + length rest. \<not> fless (([d] @ rest) ! argmax_scan rest 1 0 d) (([d] @ rest) ! j))"
    by (rule argmax_scan_max) (auto dest: fless_asym)
  then show ?thesis by (simp add: ds np_argmax_def)
qed

section \<open>The tabu list stays within its capacity\<close>

lemma drop_short: "int (length T) < n \<Longrightarrow> drop_tabu_points x T n strat = Inr T"
  by (simp add: drop_tabu_points_def)

lemma drop_oldest:
  "1 \<le> n \<Longrightarrow> n \<le> int (length T) \<Longrightarrow> drop_tabu_points x T n ''oldest'' = Inr (tl T)"
  by (cases T) (simp_all add: drop_tabu_points_def list_pop_def)

lemma drop_farthest:
  assumes "1 \<le> n" "n \<le> int (length T)" "strat \<noteq> ''oldest''"
  shows "\<exists>i<length T. drop_tabu_points x T n strat = Inr (take i T @ drop (Suc i) T) \<and>
           (\<forall>j<length T. \<not> fless (euclid (T ! i) x) (euclid (T ! j) x))"
proof -
  let ?d = "map (\<lambda>tabu. euclid tabu x) T"
  have ne: "T \<noteq> []" using assms by auto
  then have dne: "?d \<noteq> []" by simp
  have i: "np_argmax ?d < length T" using np_argmax_max[OF dne] by simp
  have m: "\<forall>j<length ?d. \<not> fless (?d ! np_argmax ?d) (?d ! j)"
    using np_argmax_max[OF dne] by blast
  have far: "\<forall>j<length T. \<not> fless (euclid (T ! np_argmax ?d) x) (euclid (T ! j) x)"
  proof (intro allI impI)
    fix j assume j: "j < length T"
    then have "\<not> fless (?d ! np_argmax ?d) (?d ! j)" using m by simp
    then show "\<not> fless (euclid (T ! np_argmax ?d) x) (euclid (T ! j) x)"
      using i j by simp
  qed
  have "drop_tabu_points x T n strat = Inr (take (np_argmax ?d) T @ drop (Suc (np_argmax ?d)) T)"
    using assms ne i by (simp add: drop_tabu_points_def list_pop_def Let_def)
  with far i show ?thesis by blast
qed

lemma drop_then_append:
  assumes "1 \<le> n" "int (length T) \<le> n"
  shows "\<exists>kept. drop_tabu_points x T n strat = Inr kept \<and> int (length (kept @ [x])) \<le> n"
proof (cases "int (length T) < n")
  case True
  then show ?thesis by (simp add: drop_short)
next
  case False
  then have eq: "n = int (length T)" using assms by simp
  show ?thesis
  proof (cases "strat = ''oldest''")
    case True
    have "drop_tabu_points x T n ''oldest'' = Inr (tl T)"
      using assms eq by (intro drop_oldest) simp_all
    moreover have "T \<noteq> []" using assms eq by auto
    then have "int (length (tl T @ [x])) \<le> int (length T)" by (cases T) simp_all
    ultimately show ?thesis using eq True by blast
  next
    case False
    from drop_farthest[OF assms(1) _ False, of T x] eq
    obtain i where "i < length T" "drop_tabu_points x T n strat = Inr (take i T @ drop (Suc i) T)"
      by auto
    then show ?thesis using eq by auto
  qed
qed

lemma append_tabu_bounded:
  assumes "1 \<le> tabulistsize (kw c)" "int (length (tabulist s)) \<le> tabulistsize (kw c)"
  shows "\<exists>s'. append_tabu c s = Next s' \<and> int (length (tabulist s')) \<le> tabulistsize (kw c)"
proof -
  from drop_then_append[OF assms, of "xf s" "tabustrategy (kw c)"]
  obtain kept where "drop_tabu_points (xf s) (tabulist s) (tabulistsize (kw c)) (tabustrategy (kw c)) = Inr kept"
    "int (length (kept @ [xf s])) \<le> tabulistsize (kw c)" by blast
  then show ?thesis by (simp add: append_tabu_def)
qed

lemma append_tabu_Next:
  "append_tabu c s = Next s' \<Longrightarrow>
   1 \<le> tabulistsize (kw c) \<and> int (length (tabulist s)) \<le> tabulistsize (kw c) \<longrightarrow>
   int (length (tabulist s')) \<le> tabulistsize (kw c)"
  using append_tabu_bounded[of c s] by auto

lemma minimization_phase_bounded:
  assumes "1 \<le> tabulistsize (kw c)" "int (length (tabulist s)) \<le> tabulistsize (kw c)"
    "minimization_phase c s = Next s'"
  shows "int (length (tabulist s')) \<le> tabulistsize (kw c)"
  using assms(3) unfolding minimization_phase_def Let_def
  by (auto split: prod.splits if_splits dest!: append_tabu_Next simp: assms(1,2))

lemma tunnelling_phase_bounded:
  assumes "1 \<le> tabulistsize (kw c)" "int (length (tabulist s)) \<le> tabulistsize (kw c)"
    "tunnelling_phase c improve s = Next (s', improve')"
  shows "int (length (tabulist s')) \<le> tabulistsize (kw c)"
  using assms(3) unfolding tunnelling_phase_def Let_def
  by (auto split: prod.splits if_splits flow.splits dest!: append_tabu_Next simp: assms(1,2))

lemma visited_bounded:
  assumes "1 \<le> tabulistsize (kw c)" "int (length (tabulist s0)) \<le> tabulistsize (kw c)" "visited c s0 s"
  shows "int (length (tabulist s)) \<le> tabulistsize (kw c)"
  using assms(3)
proof (induction rule: visited.induct)
  case start
  then show ?case using assms(2) .
next
  case (minimized s s')
  then show ?case using minimization_phase_bounded[OF assms(1)] by blast
next
  case (tunnelled s improve s' improve')
  then show ?case using tunnelling_phase_bounded[OF assms(1)] by blast
next
  case (restarted s)
  then show ?case by simp
qed

section \<open>Denominators of the tunnelling transform\<close>

lemma fsqrt_range: "fsqrt v = NaN \<or> fsqrt v = PInf \<or> (\<exists>r. fsqrt v = Fin r \<and> 0 \<le> r)"
  by (cases v) auto

lemma euclid_fless_below: "fless (euclid x t) (euclid x' t) \<Longrightarrow> below True (euclid x t) (euclid x' t)"
  unfolding euclid_def
  using fsqrt_range[of "np_sum (map fsq (vsub x t))"] fsqrt_range[of "np_sum (map fsq (vsub x' t))"]
  by (auto simp: below_def)

lemma below_step:
  assumes "below s acc acc'" "below True e e'"
  shows "below True (fmul acc e) (fmul acc' e')"
proof -
  obtain p where p: "acc = Fin p" "0 \<le> p"
    and acc': "acc' = PInf \<or> (\<exists>p'. acc' = Fin p' \<and> 0 < p' \<and> p \<le> p')"
    using assms(1) by (auto simp: below_def split: if_splits)
  obtain r where r: "e = Fin r" "0 \<le> r"
    and e': "e' = PInf \<or> (\<exists>r'. e' = Fin r' \<and> 0 < r' \<and> r < r')"
    using assms(2) by (auto simp: below_def)
  have l: "fmul acc e = Fin (p * r)" "0 \<le> p * r" using p r by simp_all
  show ?thesis
  proof (cases "acc' = PInf \<or> e' = PInf")
    case True
    then have "fmul acc' e' = PInf" using acc' e' by (auto simp: signed_inf_def)
    then show ?thesis using l by (simp add: below_def)
  next
    case False
    then obtain p' r' where f: "acc' = Fin p'" "0 < p'" "p \<le> p'" "e' = Fin r'" "0 < r'" "r < r'"
      using acc' e' by auto
    have "p * r \<le> p' * r" using f(3) r(2) by (simp add: mult_right_mono)
    also have "p' * r < p' * r'" using f(2,6) by simp
    finally have "p * r < p' * r'" .
    moreover have "0 < p' * r'" using f by simp
    ultimately show ?thesis using l f by (simp add: below_def)
  qed
qed

lemma below_foldl:
  assumes "below s acc acc'" "T \<noteq> []" "\<forall>t\<in>set T. fless (euclid x t) (euclid x' t)"
  shows "below True (foldl (\<lambda>denominator tabu. fmul denominator (euclid x tabu)) acc T)
                    (foldl (\<lambda>denominator tabu. fmul denominator (euclid x' tabu)) acc' T)"
  using assms
proof (induction T arbitrary: s acc acc')
  case Nil
  then show ?case by simp
next
  case (Cons t T)
  have st: "below True (fmul acc (euclid x t)) (fmul acc' (euclid x' t))"
    using below_step[OF Cons.prems(1)] euclid_fless_below Cons.prems(3) by simp
  show ?case
  proof (cases "T = []")
    case True
    then show ?thesis using st by simp
  next
    case False
    from Cons.IH[OF st False] Cons.prems(3) show ?thesis by simp
  qed
qed


lemma euclid_1d: "euclid [Fin a] [Fin b] = Fin \<bar>a - b\<bar>"
  by (simp add: euclid_def np_sum_def vsub_def fsq_def fsub_def)

lemma fsq_range: "fsq v = NaN \<or> fsq v = PInf \<or> (\<exists>n. fsq v = Fin n \<and> 0 \<le> n)"
  by (cases v) (auto simp: fsq_def signed_inf_def)

lemma isnan_fabs: "isnan (fabs v) = isnan v"
  by (cases v) simp_all

lemma not_fless_fle: "\<not> fless a b \<Longrightarrow> \<not> isnan a \<Longrightarrow> \<not> isnan b \<Longrightarrow> fle b a"
  by (cases a; cases b; auto)

lemma not_fless_pinf: "\<not> fless PInf b"
  by (cases b) simp_all

lemma denominators_ordered:
  assumes "\<forall>t\<in>set T. fless (euclid x t) (euclid x' t)"
  shows "\<exists>P. tabu_denominator x T = Fin P \<and> 0 \<le> P \<and>
           (tabu_denominator x' T = PInf \<or>
            (\<exists>P'. tabu_denominator x' T = Fin P' \<and> 0 < P' \<and> P \<le> P'))"
proof (cases "T = []")
  case True
  then show ?thesis by (simp add: tabu_denominator_def)
next
  case False
  have "below False (Fin 1) (Fin 1)" by (simp add: below_def)
  from below_foldl[OF this False assms]
  have "below True (tabu_denominator x T) (tabu_denominator x' T)"
    by (simp add: tabu_denominator_def)
  then show ?thesis by (auto simp: below_def less_imp_le)
qed

section \<open>Exhausting the budget\<close>





















lemma zero_norm_scale_not_finite: "np_norm r = Fin 0 \<Longrightarrow> \<not> isfinite (step_scale e2 x r)"
proof -
  assume r: "np_norm r = Fin 0"
  let ?b = "fdiv (fmul e2 (np_norm x)) (Fin 0)"
  have nf: "\<not> isfinite ?b"
    by (cases "fmul e2 (np_norm x)") (auto simp: signed_inf_def)
  then have "\<not> fless (fabs ?b) (Fin (1 / 10 ^ 8))"
    by (cases ?b) auto
  then show ?thesis using nf by (simp add: step_scale_def r Let_def)
qed

subsection \<open>A run on a shallow slope\<close>

text \<open>
  The objective \<open>(x - 1)/8\<close> from \<open>x0 = [1]\<close> with \<open>glbtol = 1/8\<close>, \<open>eps1 = 1/4\<close>, \<open>eps2 = 1/2\<close> and
  a budget of two evaluations, the local solver evaluating once and staying where it
  starts, every draw being \<open>[1]\<close>: one minimization phase and one tunnelling phase.
\<close>

lemma np_norm_1d: "np_norm [Fin a] = Fin \<bar>a\<bar>"
  by (simp add: np_norm_def np_sum_def fsq_def)














section \<open>The objective functions: replaced values and sums\<close>

lemma bad_value_finite: "isfinite (bad_value c)"
  by (cases c) (simp_all add: bad_value_def)

lemma nan_to_num1_finite: "isfinite (nan_to_num1 a)"
  by (cases a) simp_all

lemma nan_to_num1_keeps: "isfinite a \<Longrightarrow> nan_to_num1 a = a"
  by (cases a) simp_all

lemma not_bad_finite: "\<not> isnan a \<Longrightarrow> \<not> isinf a \<Longrightarrow> isfinite a"
  by (cases a) simp_all

lemma replace_bad_finite: "list_all isfinite (replace_bad v)"
proof (cases "list_ex isnan v \<or> list_ex isinf v")
  case True
  then show ?thesis
    by (simp add: replace_bad_def nan_to_num_def list_all_iff nan_to_num1_finite)
next
  case False
  then have "\<forall>a\<in>set v. isfinite a"
    by (auto simp: list_ex_iff intro: not_bad_finite)
  with False show ?thesis by (simp add: replace_bad_def list_all_iff)
qed

lemma chisq_loop_other:
  "DataType \<noteq> ''Ints'' \<Longrightarrow> \<exists>c. chisq_loop sm gl Params DataType obs acc = Inr c"
  by (induction obs arbitrary: acc) auto

lemma resid_collected_other:
  "DataType \<noteq> ''Ints'' \<Longrightarrow> \<exists>r. resid_collected sm gl Params mc DataType = Inr r"
  by (simp add: resid_collected_def)

lemma demo_prediction: "BMFitFunc demo_sim [Fin (- 1)] a b c d e f g = NaN"
  by (simp add: demo_sim_def root_predictor_def)

lemma demo_accumulated: "chisq_accumulated demo_sim demo_global [Fin (- 1)] ''R1p'' = Inr NaN"
  by (simp add: chisq_accumulated_def demo_global_def demo_ob_def chisq_R1p_ob_def whole_vector_def
      demo_prediction np_sum_def fsq_def fsub_def)

lemma demo_collected:
  "resid_collected demo_sim demo_global [Fin (- 1)] False ''R1p'' = Inr [NaN, NaN]"
  by (simp add: resid_collected_def demo_global_def demo_ob_def resid_R1p_ob_def whole_vector_def
      demo_prediction fsub_def)

lemma chisq_loop_R1p:
  "chisq_loop sm gl Params ''R1p'' obs acc = Inr (foldl fadd acc (map (chisq_R1p_ob sm gl Params) obs))"
  by (induction obs arbitrary: acc) simp_all









lemma demo_unweighted_unavailable:
  "\<not> error_available demo_ob_unweighted" "length (R1pD demo_ob_unweighted) = 2"
  by (simp_all add: error_available_def demo_ob_unweighted_def demo_ob_def np_sum_def)

lemma demo_unweighted_stated: "stated_chisq demo_sim demo_global_unweighted [Fin 4] = Fin (1 / 3)"
  by (simp add: stated_chisq_def stated_term_def demo_global_unweighted_def demo_global_def
      demo_ob_unweighted_def demo_ob_def demo_sim_def root_predictor_def whole_vector_def
      error_available_def np_sum_def fsq_def fsub_def)

lemma demo_unweighted_chi2: "chi2 demo_sim demo_global_unweighted [Fin 4] ''R1p'' = Inr (Fin 10000)"
  by (simp add: chi2_def chisq_accumulated_def demo_global_unweighted_def demo_global_def
      demo_ob_unweighted_def demo_ob_def chisq_R1p_ob_def whole_vector_def demo_sim_def
      root_predictor_def np_sum_def fsq_def fsub_def bad_value_def signed_inf_def)

section \<open>The fitting loop: branches and the brute-force seed\<close>

lemma one_fit_global:
  "FitType gl = ''global'' \<Longrightarrow>
   one_fit L mcerr fitMC gl lp = and_then (global_fit L gl lp) (\<lambda>records. Inr (gl, records))"
  by (simp add: one_fit_def)

lemma one_fit_global_keeps:
  "FitType gl = ''global'' \<Longrightarrow> one_fit L mcerr fitMC gl lp = Inr (gl1, records) \<Longrightarrow> gl1 = gl"
  by (auto simp: one_fit_def and_then_def split: sum.splits)

lemma fit_loops_global:
  "FitType gl = ''global'' \<Longrightarrow>
   fit_loops L mcerr fitMC gl lps = fit_loops L mcerr' fitMC' gl lps"
proof (induction lps)
  case Nil
  then show ?case by simp
next
  case (Cons lp lps)
  have same: "one_fit L mcerr fitMC gl lp = one_fit L mcerr' fitMC' gl lp"
    using Cons.prems by (simp add: one_fit_global)
  show ?case
  proof (cases "one_fit L mcerr' fitMC' gl lp")
    case (Inl e)
    then show ?thesis using same by (simp add: and_then_def)
  next
    case (Inr p)
    obtain gl1 records where p: "p = (gl1, records)" by (cases p)
    have "gl1 = gl" using one_fit_global_keeps[OF Cons.prems] Inr p by blast
    then show ?thesis using same Inr p Cons.IH[OF Cons.prems] by (simp add: and_then_def)
  qed
qed

lemma chi2_rate_returns: "\<exists>chisq. chi2 sm gl Params ''R1p'' = Inr chisq"
  by (simp add: chi2_def chisq_accumulated_def chisq_loop_R1p)

lemma demo_chi2_1: "chi2 demo_sim demo_global [Fin 1] ''R1p'' = Inr (Fin 5)"
  by (simp add: chi2_def chisq_accumulated_def demo_global_def demo_ob_def chisq_R1p_ob_def
      whole_vector_def demo_sim_def root_predictor_def np_sum_def fsq_def fsub_def bad_value_def)

lemma demo_chi2_4: "chi2 demo_sim demo_global [Fin 4] ''R1p'' = Inr (Fin 1)"
  by (simp add: chi2_def chisq_accumulated_def demo_global_def demo_ob_def chisq_R1p_ob_def
      whole_vector_def demo_sim_def root_predictor_def np_sum_def fsq_def fsub_def bad_value_def)

lemma demo_residual_1: "residual demo_sim demo_global [Fin 1] False ''R1p'' = Inr [Fin 1, Fin 2]"
  by (simp add: residual_def resid_collected_def demo_global_def demo_ob_def resid_R1p_ob_def
      whole_vector_def demo_sim_def root_predictor_def fsub_def replace_bad_def)

lemma demo_residual_4: "residual demo_sim demo_global [Fin 4] False ''R1p'' = Inr [Fin 0, Fin 1]"
  by (simp add: residual_def resid_collected_def demo_global_def demo_ob_def resid_R1p_ob_def
      whole_vector_def demo_sim_def root_predictor_def fsub_def replace_bad_def)

lemma demo_fields:
  "sim demo_libs = demo_sim" "least_squares demo_libs = still_least_squares"
  "brutegP0 demo_global = [[Fin 1], [Fin 4]]" "gObs demo_global = [demo_ob]"
  "dof demo_global = 1"
  by (simp_all add: demo_libs_def demo_global_def)

lemma demo_Brute_loop_0: "Brute_loop demo_libs demo_global 0 = Inr [(Fin 5, [Fin 1])]"
  by (simp add: Brute_loop_def demo_fields still_least_squares_def demo_residual_1 and_then_def
      demo_chi2_1 reduced_def)

lemma demo_Brute_loop_1: "Brute_loop demo_libs demo_global 1 = Inr [(Fin 1, [Fin 4])]"
  by (simp add: Brute_loop_def demo_fields still_least_squares_def demo_residual_4 and_then_def
      demo_chi2_4 reduced_def)

lemma dict_set_values: "(k', v') \<in> set (dict_set k v d) \<Longrightarrow> (k', v') = (k, v) \<or> (k', v') \<in> set d"
  by (induction d) (auto split: if_splits)

lemma brute_scores_values:
  "brute_scores L gl gf fitted obs d = Inr d' \<Longrightarrow> \<forall>p\<in>set d. snd p = gf \<Longrightarrow> \<forall>p\<in>set d'. snd p = gf"
proof (induction obs arbitrary: d)
  case Nil
  then show ?case by simp
next
  case (Cons ob obs)
  from Cons.prems(1) obtain chisq where
    step: "brute_scores L gl gf fitted obs (dict_set (reduced gl chisq) gf d) = Inr d'"
    by (auto simp: and_then_def split: sum.splits)
  have "\<forall>p\<in>set (dict_set (reduced gl chisq) gf d). snd p = gf"
    using Cons.prems(2) dict_set_values by fastforce
  from Cons.IH[OF step this] show ?case .
qed

lemma Brute_loop_values:
  assumes "Brute_loop L gl idx = Inr d"
  shows "\<forall>p\<in>set d. snd p = brutegP0 gl ! idx"
proof -
  from assms obtain fitted where "brute_scores L gl (brutegP0 gl ! idx) fitted (gObs gl) [] = Inr d"
    by (auto simp: Brute_loop_def and_then_def Let_def split: if_splits sum.splits)
  from brute_scores_values[OF this] show ?thesis by simp
qed

lemma brute_seed_first:
  assumes "brute_seed L gl = Inr tP0"
  shows "brutegP0 gl \<noteq> [] \<and> tP0 = brutegP0 gl ! 0"
proof -
  have ne: "brutegP0 gl \<noteq> []"
  proof
    assume "brutegP0 gl = []"
    then have "brute_seed L gl = Inl IndexError"
      by (simp add: brute_seed_def parmap_def and_then_def)
    with assms show False by simp
  qed
  then have up: "[0..<length (brutegP0 gl)] = 0 # [1..<length (brutegP0 gl)]"
    by (simp add: upt_conv_Cons)
  from assms obtain d0 others lowest where
    d0: "Brute_loop L gl 0 = Inr d0" and look: "map_of d0 lowest = Some tP0"
    unfolding brute_seed_def parmap_def up
    by (auto simp: and_then_def split: sum.splits list.splits option.splits)
  from look have "(lowest, tP0) \<in> set d0" by (rule map_of_SomeD)
  with Brute_loop_values[OF d0] have "tP0 = brutegP0 gl ! 0" by fastforce
  with ne show ?thesis by simp
qed

section \<open>The claims about the global optimizer\<close>

text \<open>
  Claim C7. The tabu list of an AMPGO run never holds more than \<open>tabulistsize\<close> points.
  \<open>drop_tabu_points\<close> returns a list shorter than \<open>tabulistsize\<close> unchanged; a list
  that has reached \<open>tabulistsize\<close> (at least 1) loses exactly one element: the one at
  index 0 under \<open>'oldest'\<close>, and otherwise one whose distance from the latest local
  minimum no other element's distance exceeds. A list within the capacity is therefore
  within it again after the drop and the append, and so is the tabu list of every state
  a run passes through, the run starting from the empty list.
\<close>

theorem tabu_list_capacity:
  "(int (length T) < n \<longrightarrow> drop_tabu_points x T n strat = Inr T) \<and>
   (1 \<le> n \<and> n \<le> int (length T) \<longrightarrow> drop_tabu_points x T n ''oldest'' = Inr (tl T)) \<and>
   (1 \<le> n \<and> n \<le> int (length T) \<and> strat \<noteq> ''oldest'' \<longrightarrow>
      (\<exists>i<length T. drop_tabu_points x T n strat = Inr (take i T @ drop (Suc i) T) \<and>
         (\<forall>j<length T. \<not> fless (euclid (T ! i) x) (euclid (T ! j) x)))) \<and>
   (1 \<le> n \<and> int (length T) \<le> n \<longrightarrow>
      (\<exists>kept. drop_tabu_points x T n strat = Inr kept \<and> int (length (kept @ [x])) \<le> n)) \<and>
   (1 \<le> tabulistsize (kw c) \<and> tabulist s0 = [] \<and> visited c s0 s \<longrightarrow>
      int (length (tabulist s)) \<le> tabulistsize (kw c))"
proof (intro conjI impI)
  assume "int (length T) < n"
  then show "drop_tabu_points x T n strat = Inr T" by (rule drop_short)
next
  assume "1 \<le> n \<and> n \<le> int (length T)"
  then show "drop_tabu_points x T n ''oldest'' = Inr (tl T)" by (simp add: drop_oldest)
next
  assume "1 \<le> n \<and> n \<le> int (length T) \<and> strat \<noteq> ''oldest''"
  then show "\<exists>i<length T. drop_tabu_points x T n strat = Inr (take i T @ drop (Suc i) T) \<and>
         (\<forall>j<length T. \<not> fless (euclid (T ! i) x) (euclid (T ! j) x))"
    using drop_farthest by blast
next
  assume "1 \<le> n \<and> int (length T) \<le> n"
  then show "\<exists>kept. drop_tabu_points x T n strat = Inr kept \<and> int (length (kept @ [x])) \<le> n"
    using drop_then_append by blast
next
  assume a: "1 \<le> tabulistsize (kw c) \<and> tabulist s0 = [] \<and> visited c s0 s"
  then have "int (length (tabulist s0)) \<le> tabulistsize (kw c)" by simp
  with a show "int (length (tabulist s)) \<le> tabulistsize (kw c)"
    using visited_bounded by blast
qed

theorem tabu_list_capacity_witness:
  "int (length [[Fin 0]]) < 2 \<and> drop_tabu_points [Fin 1] [[Fin 0]] 2 ''farthest'' = Inr [[Fin 0]] \<and>
   (1::int) \<le> 2 \<and> 2 \<le> int (length [[Fin 0], [Fin 3]]) \<and>
   drop_tabu_points [Fin 1] [[Fin 0], [Fin 3]] 2 ''oldest'' = Inr [[Fin 3]] \<and>
   ''farthest'' \<noteq> ''oldest'' \<and>
   drop_tabu_points [Fin 1] [[Fin 0], [Fin 3]] 2 ''farthest'' = Inr [[Fin 0]] \<and>
   int (length ([[Fin 0]] @ [[Fin 1]])) \<le> 2"
proof -
  have short: "int (length [[Fin 0]]) < 2" by simp
  have full: "(1::int) \<le> 2 \<and> 2 \<le> int (length [[Fin 0], [Fin 3]])" by simp
  have ne: "''farthest'' \<noteq> ''oldest''" by simp
  note t = tabu_list_capacity[of "[[Fin 0]]" 2 "[Fin 1]" "''farthest''"]
  note u = tabu_list_capacity[of "[[Fin 0], [Fin 3]]" 2 "[Fin 1]" "''farthest''"]
  have a: "drop_tabu_points [Fin 1] [[Fin 0]] 2 ''farthest'' = Inr [[Fin 0]]"
    using t short by blast
  have b: "drop_tabu_points [Fin 1] [[Fin 0], [Fin 3]] 2 ''oldest'' = Inr [[Fin 3]]"
    using u full by simp
  obtain i where i: "i < length [[Fin 0], [Fin (3::real)]]"
    "drop_tabu_points [Fin 1] [[Fin 0], [Fin 3]] 2 ''farthest'' =
       Inr (take i [[Fin 0], [Fin 3]] @ drop (Suc i) [[Fin 0], [Fin 3]])"
    "\<forall>j<length [[Fin 0], [Fin (3::real)]].
       \<not> fless (euclid ([[Fin 0], [Fin 3]] ! i) [Fin 1]) (euclid ([[Fin 0], [Fin 3]] ! j) [Fin 1])"
    using u full ne by blast
  have "i \<noteq> 0"
  proof
    assume "i = 0"
    with i(3) have "\<not> fless (euclid [Fin 0] [Fin 1]) (euclid [Fin 3] [Fin 1])"
      by (auto simp: less_Suc_eq)
    then show False by (simp add: euclid_1d)
  qed
  with i(1) have "i = 1" by simp
  with i(2) have c: "drop_tabu_points [Fin 1] [[Fin 0], [Fin 3]] 2 ''farthest'' = Inr [[Fin 0]]"
    by simp
  from short full ne a b c show ?thesis by simp
qed

text \<open>
  Claim C6, as stated, fails. With the objective equal to the aspiration value the
  transformed objective is zero at both points although the second is farther from the
  tabu point; and with an empty tabu list the denominator is 1 at both points.
\<close>

theorem tunnel_repulsion_counterexample:
  "flat_objective 0 [Fin 1] = flat_objective 0 [Fin 2] \<and>
   fless (euclid [Fin 1] [Fin 0]) (euclid [Fin 2] [Fin 0]) \<and>
   \<not> fless (fabs (tunnel (flat_objective 0) (Fin 0) [[Fin 0]] [Fin 2]))
            (fabs (tunnel (flat_objective 0) (Fin 0) [[Fin 0]] [Fin 1])) \<and>
   flat_objective 1 [Fin 1] = flat_objective 1 [Fin 2] \<and>
   \<not> fless (fabs (tunnel (flat_objective 1) (Fin 0) [] [Fin 2]))
            (fabs (tunnel (flat_objective 1) (Fin 0) [] [Fin 1]))"
  by (simp add: euclid_1d tunnel_def tabu_denominator_def flat_objective_def fsq_def fsub_def)

text \<open>
  Claim C6, amended. Whatever the aspiration value and the tabu list, if the objective
  takes the same value at \<open>x\<close> and \<open>x'\<close> and every computed distance from \<open>x'\<close> to a point of
  the tabu list exceeds the computed distance from \<open>x\<close> to it, the magnitude of the
  transformed tunnelling objective at \<open>x'\<close> is never larger than at \<open>x\<close>: the comparison
  \<open>abs(tunnel(x)) < abs(tunnel(x'))\<close> is false, and when neither value is \<open>NaN\<close> the
  magnitude at \<open>x'\<close> is at most the one at \<open>x\<close>. The magnitudes can be equal (a zero
  numerator, an empty tabu list, two infinite values, or a quotient that absorbs the
  change of the denominator). The proof orders the two denominators and the two
  quotients by the monotonicity of product and quotient alone.
\<close>

theorem tunnel_repulsion:
  assumes "obj x = obj x'"
    and "\<forall>t\<in>set T. fless (euclid x t) (euclid x' t)"
  shows "\<not> fless (fabs (tunnel obj asp T x)) (fabs (tunnel obj asp T x')) \<and>
         (\<not> isnan (tunnel obj asp T x) \<and> \<not> isnan (tunnel obj asp T x') \<longrightarrow>
            fle (fabs (tunnel obj asp T x')) (fabs (tunnel obj asp T x)))"
proof -
  obtain P where P: "tabu_denominator x T = Fin P" "0 \<le> P"
    and D': "tabu_denominator x' T = PInf \<or>
            (\<exists>P'. tabu_denominator x' T = Fin P' \<and> 0 < P' \<and> P \<le> P')"
    using denominators_ordered[OF assms(2)] by blast
  define num where "num = fsq (fsub (obj x) asp)"
  have tx: "tunnel obj asp T x = fdiv num (Fin P)"
    by (simp add: tunnel_def num_def P)
  have tx': "tunnel obj asp T x' = fdiv num (tabu_denominator x' T)"
    using assms(1) by (simp add: tunnel_def num_def)
  have main: "\<not> fless (fabs (tunnel obj asp T x)) (fabs (tunnel obj asp T x'))"
  proof -
    consider (nan) "num = NaN" | (inf) "num = PInf" | (fin) n where "num = Fin n" "0 \<le> n"
      using fsq_range[of "fsub (obj x) asp"] by (auto simp: num_def)
    then show ?thesis
    proof cases
      case nan
      then show ?thesis by (simp add: tx)
    next
      case inf
      then have "tunnel obj asp T x = PInf"
        using P by (simp add: tx signed_inf_def)
      then show ?thesis by (simp add: not_fless_pinf)
    next
      case fin
      show ?thesis
      proof (cases "P = 0")
        case True
        then have "tunnel obj asp T x = NaN \<or> tunnel obj asp T x = PInf"
          using fin by (auto simp: tx signed_inf_def)
        then show ?thesis by (auto simp: not_fless_pinf)
      next
        case False
        then have Ppos: "0 < P" using P by simp
        then have v: "tunnel obj asp T x = Fin (n / P)" using fin by (simp add: tx)
        have nn: "0 \<le> n / P" using fin Ppos by simp
        have a: "fabs (tunnel obj asp T x) = Fin (n / P)"
          using nn by (simp only: v fabs.simps abs_of_nonneg)
        from D' show ?thesis
        proof
          assume "tabu_denominator x' T = PInf"
          then have "tunnel obj asp T x' = Fin 0" using fin by (simp add: tx')
          then have "fabs (tunnel obj asp T x') = Fin 0" by simp
          then show ?thesis using nn by (simp only: a fless.simps; simp)
        next
          assume "\<exists>P'. tabu_denominator x' T = Fin P' \<and> 0 < P' \<and> P \<le> P'"
          then obtain P' where P': "tabu_denominator x' T = Fin P'" "0 < P'" "P \<le> P'" by blast
          then have v': "tunnel obj asp T x' = Fin (n / P')" using fin by (simp add: tx')
          have "n / P' \<le> n / P" using fin Ppos P' by (simp add: frac_le)
          moreover have nn': "0 \<le> n / P'" using fin P' by simp
          moreover have "fabs (tunnel obj asp T x') = Fin (n / P')"
            using nn' by (simp only: v' fabs.simps abs_of_nonneg)
          ultimately show ?thesis by (simp only: a fless.simps; simp)
        qed
      qed
    qed
  qed
  moreover have "fle (fabs (tunnel obj asp T x')) (fabs (tunnel obj asp T x))"
    if "\<not> isnan (tunnel obj asp T x) \<and> \<not> isnan (tunnel obj asp T x')"
  proof -
    have "\<not> isnan (fabs (tunnel obj asp T x))" "\<not> isnan (fabs (tunnel obj asp T x'))"
      using that by (simp_all add: isnan_fabs)
    with main show ?thesis by (intro not_fless_fle)
  qed
  ultimately show ?thesis by blast
qed

theorem tunnel_repulsion_witness:
  "flat_objective 1 [Fin 1] = flat_objective 1 [Fin 2] \<and>
   fless (euclid [Fin 1] [Fin 0]) (euclid [Fin 2] [Fin 0]) \<and>
   tunnel (flat_objective 1) (Fin 0) [[Fin 0]] [Fin 1] = Fin 1 \<and>
   tunnel (flat_objective 1) (Fin 0) [[Fin 0]] [Fin 2] = Fin (1 / 2) \<and>
   \<not> fless (fabs (tunnel (flat_objective 1) (Fin 0) [[Fin 0]] [Fin 1]))
            (fabs (tunnel (flat_objective 1) (Fin 0) [[Fin 0]] [Fin 2])) \<and>
   fle (fabs (tunnel (flat_objective 1) (Fin 0) [[Fin 0]] [Fin 2]))
       (fabs (tunnel (flat_objective 1) (Fin 0) [[Fin 0]] [Fin 1]))"
proof -
  have h1: "flat_objective 1 [Fin 1] = flat_objective 1 [Fin 2]" by (simp add: flat_objective_def)
  have d: "fless (euclid [Fin 1] [Fin 0]) (euclid [Fin 2] [Fin 0])" by (simp add: euclid_1d)
  then have h2: "\<forall>t\<in>set [[Fin 0]]. fless (euclid [Fin 1] t) (euclid [Fin 2] t)" by simp
  have v1: "tunnel (flat_objective 1) (Fin 0) [[Fin 0]] [Fin 1] = Fin 1"
    by (simp add: tunnel_def tabu_denominator_def euclid_1d flat_objective_def fsq_def fsub_def)
  have v2: "tunnel (flat_objective 1) (Fin 0) [[Fin 0]] [Fin 2] = Fin (1 / 2)"
    by (simp add: tunnel_def tabu_denominator_def euclid_1d flat_objective_def fsq_def fsub_def)
  note t = tunnel_repulsion[of "flat_objective 1" "[Fin 1]" "[Fin 2]" "[[Fin 0]]" "Fin 0", OF h1 h2]
  have "\<not> isnan (tunnel (flat_objective 1) (Fin 0) [[Fin 0]] [Fin 1]) \<and>
        \<not> isnan (tunnel (flat_objective 1) (Fin 0) [[Fin 0]] [Fin 2])"
    by (simp add: v1 v2)
  with t have "\<not> fless (fabs (tunnel (flat_objective 1) (Fin 0) [[Fin 0]] [Fin 1]))
            (fabs (tunnel (flat_objective 1) (Fin 0) [[Fin 0]] [Fin 2]))"
    and "fle (fabs (tunnel (flat_objective 1) (Fin 0) [[Fin 0]] [Fin 2]))
       (fabs (tunnel (flat_objective 1) (Fin 0) [[Fin 0]] [Fin 1]))"
    by blast+
  with h1 d v1 v2 show ?thesis by blast
qed




text \<open>
  Claim C8, as stated, fails. A direction \<open>r\<close> of zero norm makes \<open>beta\<close> the quotient
  \<open>eps2*norm(xf)/0\<close>, which is infinite (or \<open>NaN\<close>); the test \<open>abs(beta) < 1e-8\<close> is then
  false and \<open>beta\<close> is kept. With \<open>xf = [1]\<close>, \<open>eps2 = 0.1\<close> and \<open>r = [0]\<close> the step scale
  is \<open>inf\<close> and the new start point is \<open>[nan]\<close>.
\<close>

theorem zero_norm_direction_counterexample:
  "np_norm [Fin 0] = Fin 0 \<and>
   step_scale (Fin (1 / 10)) [Fin 1] [Fin 0] = PInf \<and>
   step_scale (Fin (1 / 10)) [Fin 1] [Fin 0] \<noteq> Fin (1 / 10) \<and>
   tunnel_start (Fin (1 / 10)) [NInf] [PInf] [Fin 1] [Fin 0] = [NaN] \<and>
   tunnel_start (Fin (1 / 10)) [NInf] [PInf] [Fin 1] [Fin 0] \<noteq>
     clip [NInf] [PInf] (map2 fadd [Fin 1] (map (fmul (Fin (1 / 10))) [Fin 0]))"
  by (simp add: np_norm_1d step_scale_def tunnel_start_def clip_def signed_inf_def)

text \<open>
  Claim C8, amended. In a tunnelling iteration, when the quotient
  \<open>eps2*norm(xf)/norm(r)\<close> is below \<open>1e-8\<close> in magnitude (as it is when the last local
  minimum \<open>xf\<close> has zero norm, \<open>eps2\<close> is finite and \<open>r\<close> has a positive finite norm), the
  applied step scale is \<open>eps2\<close> itself, so the new start point is \<open>xf + eps2*r\<close>, clipped
  to the bounds.
\<close>

theorem step_scale_floor:
  "(fless (fabs (fdiv (fmul e2 (np_norm x)) (np_norm r))) (Fin (1 / 10 ^ 8)) \<longrightarrow>
      step_scale e2 x r = e2 \<and>
      tunnel_start e2 lo hi x r = clip lo hi (map2 fadd x (map (fmul e2) r))) \<and>
   (np_norm x = Fin 0 \<and> e2 = Fin e \<and> np_norm r = Fin n \<and> 0 < n \<longrightarrow>
      step_scale e2 x r = e2 \<and>
      tunnel_start e2 lo hi x r = clip lo hi (map2 fadd x (map (fmul e2) r)))"
proof (intro conjI impI)
  assume a: "fless (fabs (fdiv (fmul e2 (np_norm x)) (np_norm r))) (Fin (1 / 10 ^ 8))"
  then show "step_scale e2 x r = e2" by (simp add: step_scale_def)
  then show "tunnel_start e2 lo hi x r = clip lo hi (map2 fadd x (map (fmul e2) r))"
    by (simp add: tunnel_start_def)
next
  assume b: "np_norm x = Fin 0 \<and> e2 = Fin e \<and> np_norm r = Fin n \<and> 0 < n"
  then show s: "step_scale e2 x r = e2" by (simp add: step_scale_def)
  then show "tunnel_start e2 lo hi x r = clip lo hi (map2 fadd x (map (fmul e2) r))"
    by (simp add: tunnel_start_def)
qed

theorem step_scale_floor_witness:
  "np_norm [Fin 0] = Fin 0 \<and> np_norm [Fin 1] = Fin 1 \<and> (0::real) < 1 \<and>
   fless (fabs (fdiv (fmul (Fin (1 / 10)) (np_norm [Fin 0])) (np_norm [Fin 1]))) (Fin (1 / 10 ^ 8)) \<and>
   step_scale (Fin (1 / 10)) [Fin 0] [Fin 1] = Fin (1 / 10) \<and>
   tunnel_start (Fin (1 / 10)) [NInf] [PInf] [Fin 0] [Fin 1] = [Fin (1 / 10)]"
proof -
  have h1: "np_norm [Fin 0] = Fin 0" by (simp add: np_norm_1d)
  have h2: "np_norm [Fin 1] = Fin 1" by (simp add: np_norm_1d)
  have h3: "fless (fabs (fdiv (fmul (Fin (1 / 10)) (np_norm [Fin 0])) (np_norm [Fin 1]))) (Fin (1 / 10 ^ 8))"
    by (simp add: h1 h2)
  note t = step_scale_floor[of "Fin (1 / 10)" "[Fin 0]" "[Fin 1]" "[NInf]" "[PInf]" "1 / 10" 1]
  from t h3 have s: "step_scale (Fin (1 / 10)) [Fin 0] [Fin 1] = Fin (1 / 10)" by blast
  from t h3 have "tunnel_start (Fin (1 / 10)) [NInf] [PInf] [Fin 0] [Fin 1] =
      clip [NInf] [PInf] (map2 fadd [Fin 0] (map (fmul (Fin (1 / 10))) [Fin 1]))" by blast
  then have u: "tunnel_start (Fin (1 / 10)) [NInf] [PInf] [Fin 0] [Fin 1] = [Fin (1 / 10)]"
    by (simp add: clip_def)
  from h1 h2 h3 s u show ?thesis by simp
qed

section \<open>The claims about the objective functions\<close>

text \<open>
  Claim C2. For every parameter vector, whatever \<open>chi2\<close> returns is finite and every
  element of what \<open>residual\<close> returns is finite. Whenever the accumulated chi-square is
  \<open>NaN\<close> or infinite, \<open>chi2\<close> returns \<open>1e4\<close>; whenever an element of the residual array is
  \<open>NaN\<close> or infinite, \<open>residual\<close> returns the array with every such element replaced by a
  finite value and the finite elements as they were. In rate mode (and for every data
  type but \<open>"Ints"\<close>) both functions do return; in intensity mode an empty decay matrix or
  an empty or ragged residual matrix raises.
\<close>

theorem objectives_return_finite_values:
  "(\<forall>c. chi2 sm gl Params DataType = Inr c \<longrightarrow> isfinite c) \<and>
   (\<forall>s. chisq_accumulated sm gl Params DataType = Inr s \<and> (isnan s \<or> isinf s) \<longrightarrow>
        chi2 sm gl Params DataType = Inr (Fin 10000)) \<and>
   (\<forall>r. residual sm gl Params mc DataType = Inr r \<longrightarrow> list_all isfinite r) \<and>
   (\<forall>v. resid_collected sm gl Params mc DataType = Inr v \<and> (list_ex isnan v \<or> list_ex isinf v) \<longrightarrow>
        residual sm gl Params mc DataType = Inr (map nan_to_num1 v) \<and>
        list_all isfinite (map nan_to_num1 v) \<and>
        (\<forall>i<length v. isfinite (v ! i) \<longrightarrow> map nan_to_num1 v ! i = v ! i)) \<and>
   (DataType \<noteq> ''Ints'' \<longrightarrow>
        (\<exists>c. chi2 sm gl Params DataType = Inr c) \<and>
        (\<exists>r. residual sm gl Params mc DataType = Inr r))"
proof (intro conjI allI impI)
  fix c assume "chi2 sm gl Params DataType = Inr c"
  then show "isfinite c"
    by (auto simp: chi2_def bad_value_finite split: sum.splits)
next
  fix s assume "chisq_accumulated sm gl Params DataType = Inr s \<and> (isnan s \<or> isinf s)"
  then show "chi2 sm gl Params DataType = Inr (Fin 10000)"
    by (auto simp: chi2_def bad_value_def)
next
  fix r assume "residual sm gl Params mc DataType = Inr r"
  then show "list_all isfinite r"
    by (auto simp: residual_def replace_bad_finite split: sum.splits)
next
  fix v assume a: "resid_collected sm gl Params mc DataType = Inr v \<and> (list_ex isnan v \<or> list_ex isinf v)"
  then show "residual sm gl Params mc DataType = Inr (map nan_to_num1 v)"
    by (auto simp: residual_def replace_bad_def nan_to_num_def)
  show "list_all isfinite (map nan_to_num1 v)"
    by (simp add: list_all_iff nan_to_num1_finite)
  show "\<And>i. i < length v \<Longrightarrow> isfinite (v ! i) \<Longrightarrow> map nan_to_num1 v ! i = v ! i"
    by (simp add: nan_to_num1_keeps)
next
  assume "DataType \<noteq> ''Ints''"
  then show "\<exists>c. chi2 sm gl Params DataType = Inr c"
    using chisq_loop_other[of DataType sm gl Params "gObs gl" "Fin 0"]
    by (auto simp: chi2_def chisq_accumulated_def)
next
  assume "DataType \<noteq> ''Ints''"
  then show "\<exists>r. residual sm gl Params mc DataType = Inr r"
    using resid_collected_other[of DataType sm gl Params mc]
    by (auto simp: residual_def)
qed

theorem objectives_return_finite_values_witness:
  "chisq_accumulated demo_sim demo_global [Fin (- 1)] ''R1p'' = Inr NaN \<and> isnan NaN \<and>
   chi2 demo_sim demo_global [Fin (- 1)] ''R1p'' = Inr (Fin 10000) \<and> isfinite (Fin 10000) \<and>
   resid_collected demo_sim demo_global [Fin (- 1)] False ''R1p'' = Inr [NaN, NaN] \<and>
   list_ex isnan [NaN, NaN] \<and>
   residual demo_sim demo_global [Fin (- 1)] False ''R1p'' = Inr [Fin 0, Fin 0] \<and>
   list_all isfinite [Fin 0, Fin 0] \<and> ''R1p'' \<noteq> ''Ints''"
proof -
  note t = objectives_return_finite_values[of demo_sim demo_global "[Fin (- 1)]" "''R1p''" False]
  have a: "chisq_accumulated demo_sim demo_global [Fin (- 1)] ''R1p'' = Inr NaN \<and> (isnan NaN \<or> isinf NaN)"
    using demo_accumulated by simp
  have b: "resid_collected demo_sim demo_global [Fin (- 1)] False ''R1p'' = Inr [NaN, NaN] \<and>
           (list_ex isnan [NaN, NaN] \<or> list_ex isinf [NaN, NaN])"
    using demo_collected by simp
  from t a have c: "chi2 demo_sim demo_global [Fin (- 1)] ''R1p'' = Inr (Fin 10000)" by blast
  from t b have "residual demo_sim demo_global [Fin (- 1)] False ''R1p'' = Inr (map nan_to_num1 [NaN, NaN])"
    by blast
  then have d: "residual demo_sim demo_global [Fin (- 1)] False ''R1p'' = Inr [Fin 0, Fin 0]" by simp
  from a b c d show ?thesis by simp
qed




section \<open>The claims about the fitting loop\<close>

text \<open>
  Claim C10. For the fit type \<open>'global'\<close> the fit records of a run (fitted parameters,
  reduced chi-square, evaluation counts and reported errors of the global and polish
  stages) do not depend on the Monte-Carlo inputs: two runs that differ only in the flag
  \<open>mcerr\<close> and the count \<open>fitMC\<close> produce the same records, every fit loop being the
  global fit with its polish, which reads neither.
\<close>

theorem global_fit_ignores_monte_carlo:
  "FitType gl = ''global'' \<Longrightarrow>
   Main_fit L mcerr fitMC gl = Main_fit L mcerr' fitMC' gl \<and>
   one_fit L mcerr fitMC gl lp = and_then (global_fit L gl lp) (\<lambda>records. Inr (gl, records))"
  using fit_loops_global[of gl L mcerr fitMC "[0..<FitLoops gl]" mcerr' fitMC']
  by (simp add: Main_fit_def one_fit_global)

theorem global_fit_ignores_monte_carlo_witness:
  "FitType demo_global_fit = ''global'' \<and>
   Main_fit demo_libs True 100 demo_global_fit = Main_fit demo_libs False 1 demo_global_fit"
proof -
  have h: "FitType demo_global_fit = ''global''"
    by (simp add: demo_global_fit_def)
  from global_fit_ignores_monte_carlo[OF h, of demo_libs True 100 False 1 0] h
  show ?thesis by blast
qed

text \<open>
  Claim C9. In the local fit without Monte-Carlo error estimation, if the sum of a
  dataset's uncertainty column is exactly zero, the standard errors reported for it are
  the zero vector of the length of the fitted parameter vector; when the sum is not zero
  they are what \<open>cStdErr\<close> computes from the fitted vector, the residuals and the
  Jacobian. These errors, unpacked for the dataset, are the \<open>errPars\<close> of the one record
  the dataset gets, and without the flag the local fit makes no Monte-Carlo refit.
\<close>

theorem local_errors_zero_without_uncertainties:
  "(np_sum (map (\<lambda>(OF, SL, k, err). err) (R1pD ob)) = Fin 0 \<longrightarrow>
      local_fiterr L gl fitted ob = replicate (length (opt_x fitted)) (Fin 0)) \<and>
   (np_sum (map (\<lambda>(OF, SL, k, err). err) (R1pD ob)) \<noteq> Fin 0 \<longrightarrow>
      local_fiterr L gl fitted ob = cStdErr L (opt_x fitted) (opt_fun fitted) (opt_jac fitted) (dof gl)) \<and>
   (\<exists>chisq. chi2 (sim L) gl (opt_x fitted) ''R1p'' = Inr chisq \<and>
      local_records L gl False lp fitted MCpars ob =
        Inr [\<lparr>fit_index = lp + 1, fit_pars = UnpackgP0 gl (opt_x fitted) ob,
              fit_redChiSq = reduced gl chisq, fit_nfev = opt_nfev fitted,
              fit_stage = ''local'', fit_ob = ob,
              fit_errPars = Some (UnpackErr gl (local_fiterr L gl fitted ob) ob)\<rparr>]) \<and>
   local_fit L False fitMC gl lp =
     and_then (least_squares L (\<lambda>p. residual (sim L) gl p False ''R1p'') (start_vector gl lp) (gBnds gl) 10000)
       (\<lambda>fitted. and_then (for_each (local_records L gl False lp fitted []) (gObs gl))
                    (\<lambda>records. Inr (gl, records)))"
proof (intro conjI impI)
  assume "np_sum (map (\<lambda>(OF, SL, k, err). err) (R1pD ob)) = Fin 0"
  then show "local_fiterr L gl fitted ob = replicate (length (opt_x fitted)) (Fin 0)"
    by (simp add: local_fiterr_def)
next
  assume "np_sum (map (\<lambda>(OF, SL, k, err). err) (R1pD ob)) \<noteq> Fin 0"
  then show "local_fiterr L gl fitted ob = cStdErr L (opt_x fitted) (opt_fun fitted) (opt_jac fitted) (dof gl)"
    by (simp add: local_fiterr_def)
next
  obtain chisq where c: "chi2 (sim L) gl (opt_x fitted) ''R1p'' = Inr chisq"
    using chi2_rate_returns by blast
  then show "\<exists>chisq. chi2 (sim L) gl (opt_x fitted) ''R1p'' = Inr chisq \<and>
      local_records L gl False lp fitted MCpars ob =
        Inr [\<lparr>fit_index = lp + 1, fit_pars = UnpackgP0 gl (opt_x fitted) ob,
              fit_redChiSq = reduced gl chisq, fit_nfev = opt_nfev fitted,
              fit_stage = ''local'', fit_ob = ob,
              fit_errPars = Some (UnpackErr gl (local_fiterr L gl fitted ob) ob)\<rparr>]"
    by (simp add: local_records_def and_then_def)
next
  show "local_fit L False fitMC gl lp =
     and_then (least_squares L (\<lambda>p. residual (sim L) gl p False ''R1p'') (start_vector gl lp) (gBnds gl) 10000)
       (\<lambda>fitted. and_then (for_each (local_records L gl False lp fitted []) (gObs gl))
                    (\<lambda>records. Inr (gl, records)))"
    by (simp add: local_fit_def and_then_def)
qed

theorem local_errors_zero_without_uncertainties_witness:
  "np_sum (map (\<lambda>(OF, SL, k, err). err) (R1pD demo_ob_unweighted)) = Fin 0 \<and>
   local_fiterr demo_libs demo_global demo_fitted demo_ob_unweighted = [Fin 0] \<and>
   np_sum (map (\<lambda>(OF, SL, k, err). err) (R1pD demo_ob)) \<noteq> Fin 0 \<and>
   local_fiterr demo_libs demo_global demo_fitted demo_ob =
     cStdErr demo_libs (opt_x demo_fitted) (opt_fun demo_fitted) (opt_jac demo_fitted) (dof demo_global)"
proof -
  have z: "np_sum (map (\<lambda>(OF, SL, k, err). err) (R1pD demo_ob_unweighted)) = Fin 0"
    by (simp add: demo_ob_unweighted_def np_sum_def)
  have n: "np_sum (map (\<lambda>(OF, SL, k, err). err) (R1pD demo_ob)) \<noteq> Fin 0"
    by (simp add: demo_ob_def np_sum_def)
  note a = local_errors_zero_without_uncertainties[of demo_ob_unweighted demo_libs demo_global demo_fitted 0 "[]" 1]
  note b = local_errors_zero_without_uncertainties[of demo_ob demo_libs demo_global demo_fitted 0 "[]" 1]
  from a z have "local_fiterr demo_libs demo_global demo_fitted demo_ob_unweighted =
      replicate (length (opt_x demo_fitted)) (Fin 0)" by blast
  then have c: "local_fiterr demo_libs demo_global demo_fitted demo_ob_unweighted = [Fin 0]"
    by (simp add: demo_fitted_def)
  from b n have d: "local_fiterr demo_libs demo_global demo_fitted demo_ob =
     cStdErr demo_libs (opt_x demo_fitted) (opt_fun demo_fitted) (opt_jac demo_fitted) (dof demo_global)"
    by blast
  from z n c d show ?thesis by simp
qed

text \<open>
  Claim C1 against the code. The grid has the two points \<open>[1]\<close> and \<open>[4]\<close>; the workers
  score them with reduced chi-squares 5 and 1. \<open>dict(allfits[0])\<close> keeps the dictionary
  of grid point 0 only, so the seed of the final refinement is \<open>[1]\<close>, not the point
  \<open>[4]\<close> of lowest reduced chi-square.
\<close>

theorem brute_seed_is_first_grid_point:
  "brutegP0 demo_global = [[Fin 1], [Fin 4]] \<and>
   Brute_loop demo_libs demo_global 0 = Inr [(Fin 5, [Fin 1])] \<and>
   Brute_loop demo_libs demo_global 1 = Inr [(Fin 1, [Fin 4])] \<and>
   fless (Fin 1) (Fin 5) \<and>
   brute_seed demo_libs demo_global = Inr [Fin 1]"
proof -
  have "[0..<length (brutegP0 demo_global)] = [0, 1]"
    by (simp add: demo_fields upt_rec)
  then have "brute_seed demo_libs demo_global = Inr [Fin 1]"
    using demo_Brute_loop_1
    by (simp add: brute_seed_def parmap_def and_then_def demo_Brute_loop_0 py_min_def)
  then show ?thesis
    using demo_Brute_loop_1 by (simp add: demo_fields demo_Brute_loop_0)
qed

end
